theory Spec2Isabelle
  imports Main "HOL-Library.Multiset"
begin

section \<open>Python values, errors and strings\<close>

text \<open>
  The Python values the scripts read from CSV files and JSON objects: a string, or
  \<^verbatim>\<open>None\<close>. A string is kept as the list of the bytes of its UTF-8 form, so equality,
  emptiness and concatenation are those of the Python string.
\<close>

datatype pyval = PyNone | PyStr string

text \<open>The exceptions that the modelled functions raise.\<close>

datatype py_error = ValueError | AttributeError

text \<open>
  \<^verbatim>\<open>str.strip()\<close> and \<^verbatim>\<open>str.upper()\<close> are Python's: they remove Unicode white space
  and map every cased letter of Unicode. The functions below take them as the parameters
  \<open>strip\<close> and \<open>upper\<close>, and every property is proved for all such functions.
\<close>

section \<open>Completion codes (completion\_codes\_config.py)\<close>

text \<open>
  \<^verbatim>\<open>COMPLETION_CODES\<close> is a Python dict; iteration follows insertion order, so it is
  kept as an association list in the order of the source.
\<close>

definition COMPLETION_CODES :: "(string \<times> string) list" where
  "COMPLETION_CODES =
     [(''APPROVED'', ''C1G9PC0D''),
      (''SCREENED_OUT'', ''C1NFUEQ1''),
      (''FAILED_ATTENTION'', ''C1M8R1Y4''),
      (''NO_CONSENT'', ''COISODYI'')]"

text \<open>
  \<^verbatim>\<open>COMPLETION_CODES[name]\<close> raises KeyError on a missing name; every use in the source
  is with one of the four literal names, for which the lookup succeeds. The model returns
  the option of the lookup and the callers below take the four values through it.
\<close>

definition code_of :: "string \<Rightarrow> string" where
  "code_of name = (case map_of COMPLETION_CODES name of Some c \<Rightarrow> c | None \<Rightarrow> [])"

text \<open>
  A CSV row is the dict that \<^verbatim>\<open>csv.DictReader\<close> yields: a cell is a string, or
  \<^verbatim>\<open>None\<close> for a column that a short line does not reach.
\<close>

type_synonym csv_row = "string \<rightharpoonup> pyval"

text \<open>
  \<^verbatim>\<open>csv_row.get(k, '').strip()\<close>: the default for a missing column is the empty string;
  on a \<^verbatim>\<open>None\<close> cell the call of \<^verbatim>\<open>strip\<close> raises AttributeError.
\<close>

definition get_strip :: "(string \<Rightarrow> string) \<Rightarrow> csv_row \<Rightarrow> string \<Rightarrow> py_error + string" where
  "get_strip strip csv_row k =
     (case csv_row k of
        None \<Rightarrow> Inr (strip [])
      | Some PyNone \<Rightarrow> Inl AttributeError
      | Some (PyStr s) \<Rightarrow> Inr (strip s))"

text \<open>\<^verbatim>\<open>csv_row.get(k, '').strip().upper()\<close>.\<close>

definition get_strip_upper ::
  "(string \<Rightarrow> string) \<Rightarrow> (string \<Rightarrow> string) \<Rightarrow> csv_row \<Rightarrow> string \<Rightarrow> py_error + string" where
  "get_strip_upper strip upper csv_row k =
     (case get_strip strip csv_row k of Inl e \<Rightarrow> Inl e | Inr s \<Rightarrow> Inr (upper s))"

text \<open>The test \<^verbatim>\<open>csv_row.get(flag, '').strip().upper() == 'TRUE'\<close>.\<close>

definition flag_true ::
  "(string \<Rightarrow> string) \<Rightarrow> (string \<Rightarrow> string) \<Rightarrow> csv_row \<Rightarrow> string \<Rightarrow> py_error + bool" where
  "flag_true strip upper csv_row k =
     (case get_strip_upper strip upper csv_row k of
        Inl e \<Rightarrow> Inl e
      | Inr s \<Rightarrow> Inr (s = ''TRUE''))"

definition screening_flags :: "string list" where
  "screening_flags =
     [''did_not_understand_tasks'', ''occupation_not_confirmed'', ''insufficient_work_experience'']"

text \<open>\<^verbatim>\<open>flag.replace('_', ' ')\<close> in the reason of a screening flag.\<close>

definition replace_underscore :: "string \<Rightarrow> string" where
  "replace_underscore s = map (\<lambda>c. if c = CHR ''_'' then CHR '' '' else c) s"

text \<open>
  The \<^verbatim>\<open>for flag in screening_flags\<close> loop: the first flag that is set decides.
\<close>

fun first_screening_flag ::
  "(string \<Rightarrow> string) \<Rightarrow> (string \<Rightarrow> string) \<Rightarrow> csv_row \<Rightarrow> string list
   \<Rightarrow> py_error + string option" where
  "first_screening_flag strip upper csv_row [] = Inr None"
| "first_screening_flag strip upper csv_row (f # fs) =
     (case flag_true strip upper csv_row f of
        Inl e \<Rightarrow> Inl e
      | Inr b \<Rightarrow> if b then Inr (Some f) else first_screening_flag strip upper csv_row fs)"

text \<open>
  \<^verbatim>\<open>determine_completion_code\<close>: the chain of early returns, in the order of the source;
  a cell is read only when its test is reached. The first component of the result is the
  completion code (\<open>None\<close> is Python's \<^verbatim>\<open>None\<close>), the second the reason.
\<close>

definition determine_completion_code ::
  "(string \<Rightarrow> string) \<Rightarrow> (string \<Rightarrow> string) \<Rightarrow> csv_row \<Rightarrow> py_error + (string option \<times> string)" where
  "determine_completion_code strip upper csv_row =
    (case flag_true strip upper csv_row ''no_consent'' of
       Inl e \<Rightarrow> Inl e
     | Inr no_consent \<Rightarrow>
    if no_consent then
      Inr (Some (code_of ''NO_CONSENT''),
           ''Participant did not provide valid consent to participate in this research study. Consent is required for all participants as per ethical research guidelines and institutional requirements.'')
    else
    (case flag_true strip upper csv_row ''failed_two_plus_attention_checks'' of
       Inl e \<Rightarrow> Inl e
     | Inr failed \<Rightarrow>
    if failed then
      Inr (Some (code_of ''FAILED_ATTENTION''),
           ''Participant failed two or more attention checks, indicating insufficient attention to study requirements.'')
    else
    (case first_screening_flag strip upper csv_row screening_flags of
       Inl e \<Rightarrow> Inl e
     | Inr (Some flag) \<Rightarrow>
         Inr (Some (code_of ''SCREENED_OUT''),
              ''Participant was screened out due to: '' @ replace_underscore flag)
     | Inr None \<Rightarrow>
    (case flag_true strip upper csv_row ''screened_out'' of
       Inl e \<Rightarrow> Inl e
     | Inr screened \<Rightarrow>
    if screened then
      Inr (Some (code_of ''SCREENED_OUT''),
           ''Participant was screened out during the study process.'')
    else
    (case flag_true strip upper csv_row ''incomplete_survey_other_reasons'' of
       Inl e \<Rightarrow> Inl e
     | Inr incomplete \<Rightarrow>
    if incomplete then
      Inr (Some (code_of ''FAILED_ATTENTION''),
           ''Participant did not complete the survey for other reasons indicating insufficient engagement.'')
    else
    (case flag_true strip upper csv_row ''completed_survey'' of
       Inl e \<Rightarrow> Inl e
     | Inr completed \<Rightarrow>
    if completed then
      (case get_strip_upper strip upper csv_row ''approved'' of
         Inl e \<Rightarrow> Inl e
       | Inr approved \<Rightarrow>
           if approved \<noteq> ''FALSE'' then
             Inr (Some (code_of ''APPROVED''),
                  ''Participant successfully completed the study and met all requirements.'')
           else
             Inr (None, ''Unable to determine appropriate completion code - requires manual review.''))
    else
      Inr (None, ''Unable to determine appropriate completion code - requires manual review.'')))))))"

text \<open>A dictionary of flag strings as a CSV row: every cell is a string.\<close>

definition str_row :: "(string \<rightharpoonup> string) \<Rightarrow> csv_row" where
  "str_row flags = (\<lambda>k. case flags k of None \<Rightarrow> None | Some s \<Rightarrow> Some (PyStr s))"

text \<open>
  \<^verbatim>\<open>get_api_action_for_completion_code\<close>. The argument is any Python value the
  callers pass: a string, or \<^verbatim>\<open>None\<close> (the manual-review result of
  \<^verbatim>\<open>determine_completion_code\<close>), which equals none of the codes.
\<close>

definition get_api_action_for_completion_code :: "string option \<Rightarrow> string" where
  "get_api_action_for_completion_code completion_code =
    (if completion_code = Some (code_of ''APPROVED'') then ''SKIP''
     else if completion_code = Some (code_of ''SCREENED_OUT'') then ''SCREEN_OUT''
     else if completion_code \<in> set [Some (code_of ''FAILED_ATTENTION''), Some (code_of ''NO_CONSENT'')]
       then ''REJECT''
     else ''MANUAL_REVIEW'')"

text \<open>
  \<^verbatim>\<open>get_code_name\<close>: the empty string (and \<^verbatim>\<open>None\<close>) is falsy and gives the empty
  name; otherwise the first entry of the dict whose code is the argument, or
  \<^verbatim>\<open>UNKNOWN(code)\<close>.
\<close>

fun find_name :: "(string \<times> string) list \<Rightarrow> string \<Rightarrow> string option" where
  "find_name [] c = None"
| "find_name ((name, code) # rest) c = (if code = c then Some name else find_name rest c)"

definition get_code_name :: "string \<Rightarrow> string" where
  "get_code_name completion_code =
    (if completion_code = [] then []
     else case find_name COMPLETION_CODES completion_code of
       Some name \<Rightarrow> name
     | None \<Rightarrow> ''UNKNOWN('' @ completion_code @ '')'')"

definition is_known_completion_code :: "string \<Rightarrow> bool" where
  "is_known_completion_code completion_code = (completion_code \<in> set (map snd COMPLETION_CODES))"

subsection \<open>Example inputs\<close>

text \<open>
  For the examples, \<open>strip\<close> and \<open>upper\<close> are instantiated with what Python's functions
  do on ASCII text: white space is tab, line feed, vertical tab, form feed, carriage
  return, the separators 0x1C to 0x1F and the blank; the letters a to z are mapped.
\<close>

definition ascii_space :: "char \<Rightarrow> bool" where
  "ascii_space c = (let n = of_char c :: nat in (9 \<le> n \<and> n \<le> 13) \<or> (28 \<le> n \<and> n \<le> 32))"

definition ascii_strip :: "string \<Rightarrow> string" where
  "ascii_strip s = rev (dropWhile ascii_space (rev (dropWhile ascii_space s)))"

definition ascii_upper_char :: "char \<Rightarrow> char" where
  "ascii_upper_char c = (let n = of_char c :: nat in
     if 97 \<le> n \<and> n \<le> 122 then char_of (n - 32) else c)"

definition ascii_upper :: "string \<Rightarrow> string" where
  "ascii_upper s = map ascii_upper_char s"

definition example_flags :: "string \<rightharpoonup> string" where
  "example_flags = [''no_consent'' \<mapsto> '' true '', ''completed_survey'' \<mapsto> ''TRUE'']"

section \<open>Review plan (generate\_review\_plan.py)\<close>

text \<open>
  A Prolific submission is a JSON object; the fields the function reads are strings or
  null. \<^verbatim>\<open>sub.get(k)\<close> gives \<^verbatim>\<open>None\<close> for a missing key, and
  \<^verbatim>\<open>sub.get('study_code', '')\<close> the empty string.
\<close>

type_synonym submission = "string \<rightharpoonup> pyval"

definition sub_get :: "submission \<Rightarrow> string \<Rightarrow> pyval" where
  "sub_get sub k = (case sub k of Some v \<Rightarrow> v | None \<Rightarrow> PyNone)"

definition sub_get_default :: "submission \<Rightarrow> string \<Rightarrow> string \<Rightarrow> pyval" where
  "sub_get_default sub k d = (case sub k of Some v \<Rightarrow> v | None \<Rightarrow> PyStr d)"

text \<open>Python truth of a value: \<^verbatim>\<open>None\<close> and the empty string are false.\<close>

definition truthy :: "pyval \<Rightarrow> bool" where
  "truthy v = (case v of PyNone \<Rightarrow> False | PyStr s \<Rightarrow> s \<noteq> [])"

text \<open>How an f-string prints a value.\<close>

definition py_format :: "pyval \<Rightarrow> string" where
  "py_format v = (case v of PyNone \<Rightarrow> ''None'' | PyStr s \<Rightarrow> s)"

text \<open>
  \<^verbatim>\<open>participant_data\<close> maps a Prolific id to its CSV row. The test
  \<^verbatim>\<open>participant_id in participant_data\<close> followed by the lookup: \<^verbatim>\<open>None\<close> is not a
  key of the dict.
\<close>

type_synonym participant_data = "string \<rightharpoonup> csv_row"

definition lookup_participant :: "participant_data \<Rightarrow> pyval \<Rightarrow> csv_row option" where
  "lookup_participant pd pid = (case pid of PyNone \<Rightarrow> None | PyStr s \<Rightarrow> pd s)"

record plan_entry =
  prolific_submission_id :: pyval
  prolific_participant_id :: pyval
  current_prolific_status :: pyval
  actual_completion_code :: pyval
  local_status :: string
  local_reason :: string
  local_category :: string
  validation_status :: string
  proposed_action :: string
  entry_notes :: string

record validation_summary =
  matches :: nat
  mismatches :: nat
  csv_only :: nat
  code_only :: nat
  neither :: nat

text \<open>
  The condition under which the source sets \<^verbatim>\<open>validation_status = "MATCH"\<close>: the table of
  accepted code/status pairs.
\<close>

definition agreement :: "pyval \<Rightarrow> string \<Rightarrow> bool" where
  "agreement code status =
    ((code \<in> set [PyStr ''C1DQRLH1'', PyStr ''COMPLETION_CODE_APPROVED''] \<and> status = ''APPROVED'')
     \<or> (code \<in> set [PyStr ''TIMEOUT'', PyStr ''FAILED_ATTENTION''] \<and> status = ''REJECTED'')
     \<or> (code \<in> set [PyStr ''NO_CONSENT'', PyStr ''SCREENED_OUT'']
          \<and> status \<in> set [''SCREENED-OUT'', ''REJECTED'']))"

text \<open>
  The body of the \<^verbatim>\<open>for sub in prolific_submissions\<close> loop. The state is the plan built
  so far and the \<^verbatim>\<open>validation_summary\<close> counters; the entry starts from the defaults of
  the source and each branch overwrites what the source overwrites. For a participant of
  the local data the three cells \<^verbatim>\<open>status\<close>, \<^verbatim>\<open>reason\<close> and \<^verbatim>\<open>category\<close> are read
  and stripped first, in this order; a \<^verbatim>\<open>None\<close> cell raises AttributeError there.
\<close>

definition review_step ::
  "(string \<Rightarrow> string) \<Rightarrow> participant_data \<Rightarrow> plan_entry list \<times> validation_summary \<Rightarrow> submission
   \<Rightarrow> py_error + (plan_entry list \<times> validation_summary)" where
  "review_step strip pd acc sub =
    (let review_plan = fst acc; summary = snd acc;
         code = sub_get_default sub ''study_code'' [];
         base = \<lparr> prolific_submission_id = sub_get sub ''id'',
                  prolific_participant_id = sub_get sub ''participant_id'',
                  current_prolific_status = sub_get sub ''status'',
                  actual_completion_code = code,
                  local_status = [], local_reason = [], local_category = [],
                  validation_status = ''NO_CSV_DATA'',
                  proposed_action = ''NO_ACTION_NO_CSV_DATA'',
                  entry_notes = [] \<rparr>
     in case lookup_participant pd (sub_get sub ''participant_id'') of
       Some csv_row \<Rightarrow>
        (case get_strip strip csv_row ''status'' of Inl err \<Rightarrow> Inl err | Inr st \<Rightarrow>
        (case get_strip strip csv_row ''reason'' of Inl err \<Rightarrow> Inl err | Inr reason \<Rightarrow>
        (case get_strip strip csv_row ''category'' of Inl err \<Rightarrow> Inl err | Inr category \<Rightarrow>
         (let e = base \<lparr> local_status := st, local_reason := reason, local_category := category \<rparr>
          in if truthy code \<and> st \<noteq> [] then
               (if agreement code st then
                  Inr (review_plan @
                     [e \<lparr> validation_status := ''MATCH'',
                          proposed_action :=
                            (if st = ''APPROVED'' then ''APPROVE''
                             else if st = ''REJECTED'' then ''REJECT''
                             else if st = ''SCREENED-OUT'' then ''SCREEN_OUT''
                             else proposed_action e) \<rparr>],
                   summary \<lparr> matches := matches summary + 1 \<rparr>)
                else
                  Inr (review_plan @
                     [e \<lparr> validation_status := ''MISMATCH'',
                          entry_notes := ''Local analysis: '' @ st @ '' but Qualtrics code: ''
                                           @ py_format code,
                          proposed_action := ''MANUAL_REVIEW_MISMATCH'' \<rparr>],
                   summary \<lparr> mismatches := mismatches summary + 1 \<rparr>))
             else if truthy code \<and> st = [] then
               Inr (review_plan @
                  [e \<lparr> validation_status := ''CODE_ONLY'',
                       entry_notes := ''Qualtrics assigned code but no local decision found'',
                       proposed_action := ''MANUAL_REVIEW_NO_LOCAL_DECISION'' \<rparr>],
                summary \<lparr> code_only := code_only summary + 1 \<rparr>)
             else if \<not> truthy code \<and> st \<noteq> [] then
               Inr (review_plan @
                  [e \<lparr> validation_status := ''CSV_ONLY'',
                       entry_notes := ''Local decision exists but no completion code from Qualtrics'',
                       proposed_action :=
                         (if st = ''APPROVED'' then ''APPROVE_NO_CODE''
                          else if st = ''REJECTED'' then ''REJECT_NO_CODE''
                          else if st = ''SCREENED-OUT'' then ''SCREEN_OUT_NO_CODE''
                          else proposed_action e) \<rparr>],
                summary \<lparr> csv_only := csv_only summary + 1 \<rparr>)
             else
               Inr (review_plan @
                  [e \<lparr> validation_status := ''NEITHER'',
                       entry_notes := ''No completion code and no local decision'',
                       proposed_action := ''MANUAL_REVIEW_NO_DATA'' \<rparr>],
                summary \<lparr> neither := neither summary + 1 \<rparr>)))))
     | None \<Rightarrow>
         (if truthy code then
            Inr (review_plan @
               [base \<lparr> proposed_action := ''APPROVE_NO_LOCAL_DATA'',
                       entry_notes := ''Using completion code (participant not in local data)'' \<rparr>],
             summary)
          else
            Inr (review_plan @ [base \<lparr> proposed_action := ''MANUAL_REVIEW_NO_LOCAL_DATA'' \<rparr>],
             summary)))"

definition empty_summary :: validation_summary where
  "empty_summary = \<lparr> matches = 0, mismatches = 0, csv_only = 0, code_only = 0, neither = 0 \<rparr>"

text \<open>The loop over the submissions; an exception of a pass ends it.\<close>

fun review_loop ::
  "(string \<Rightarrow> string) \<Rightarrow> participant_data \<Rightarrow> plan_entry list \<times> validation_summary
   \<Rightarrow> submission list \<Rightarrow> py_error + (plan_entry list \<times> validation_summary)" where
  "review_loop strip pd acc [] = Inr acc"
| "review_loop strip pd acc (sub # subs) =
     (case review_step strip pd acc sub of
        Inl err \<Rightarrow> Inl err
      | Inr acc' \<Rightarrow> review_loop strip pd acc' subs)"

text \<open>
  The run from the empty plan and the zero counters. The function returns the plan; the
  counters are what its validation summary prints before the return.
\<close>

definition review_run ::
  "(string \<Rightarrow> string) \<Rightarrow> submission list \<Rightarrow> participant_data
   \<Rightarrow> py_error + (plan_entry list \<times> validation_summary)" where
  "review_run strip prolific_submissions pd =
     review_loop strip pd ([], empty_summary) prolific_submissions"

definition generate_review_plan ::
  "(string \<Rightarrow> string) \<Rightarrow> submission list \<Rightarrow> participant_data \<Rightarrow> py_error + plan_entry list" where
  "generate_review_plan strip prolific_submissions pd =
     (case review_run strip prolific_submissions pd of
        Inl err \<Rightarrow> Inl err
      | Inr acc \<Rightarrow> Inr (fst acc))"

definition reported_mismatches ::
  "(string \<Rightarrow> string) \<Rightarrow> submission list \<Rightarrow> participant_data \<Rightarrow> py_error + nat" where
  "reported_mismatches strip prolific_submissions pd =
     (case review_run strip prolific_submissions pd of
        Inl err \<Rightarrow> Inl err
      | Inr acc \<Rightarrow> Inr (mismatches (snd acc)))"

subsection \<open>The statement about mismatches, in its own words\<close>

text \<open>The accepted pairs of completion code and local status.\<close>

definition agreement_table :: "(string \<times> string) list" where
  "agreement_table =
     [(''C1DQRLH1'', ''APPROVED''), (''COMPLETION_CODE_APPROVED'', ''APPROVED''),
      (''TIMEOUT'', ''REJECTED''), (''FAILED_ATTENTION'', ''REJECTED''),
      (''NO_CONSENT'', ''SCREENED-OUT''), (''NO_CONSENT'', ''REJECTED''),
      (''SCREENED_OUT'', ''SCREENED-OUT''), (''SCREENED_OUT'', ''REJECTED'')]"

text \<open>
  A submission is a counted mismatch when its participant has a local row, it has a
  completion code (a non-empty string), the row has a local status (non-empty after
  stripping; a missing column counts as the empty text), and the pair of code and status
  is not in the table.
\<close>

definition counted_as_mismatch :: "(string \<Rightarrow> string) \<Rightarrow> participant_data \<Rightarrow> submission \<Rightarrow> bool" where
  "counted_as_mismatch strip pd sub =
    (case sub ''participant_id'' of
       Some (PyStr pid) \<Rightarrow>
         (case pd pid of
            Some row \<Rightarrow>
              (case sub ''study_code'' of
                 Some (PyStr code) \<Rightarrow>
                   (case row ''status'' of
                      Some (PyStr status) \<Rightarrow>
                        code \<noteq> [] \<and> strip status \<noteq> [] \<and> (code, strip status) \<notin> set agreement_table
                    | Some PyNone \<Rightarrow> False
                    | None \<Rightarrow>
                        code \<noteq> [] \<and> strip [] \<noteq> [] \<and> (code, strip []) \<notin> set agreement_table)
               | _ \<Rightarrow> False)
          | None \<Rightarrow> False)
     | _ \<Rightarrow> False)"

text \<open>
  The cells that a pass reads are strings: the participant of the submission has no local
  row, or the \<^verbatim>\<open>status\<close>, \<^verbatim>\<open>reason\<close> and \<^verbatim>\<open>category\<close> cells of the row are not
  \<^verbatim>\<open>None\<close>.
\<close>

definition cells_are_strings :: "participant_data \<Rightarrow> submission \<Rightarrow> bool" where
  "cells_are_strings pd sub =
    (case lookup_participant pd (sub_get sub ''participant_id'') of
       None \<Rightarrow> True
     | Some row \<Rightarrow>
         row ''status'' \<noteq> Some PyNone \<and> row ''reason'' \<noteq> Some PyNone
         \<and> row ''category'' \<noteq> Some PyNone)"

subsection \<open>Example inputs\<close>

definition example_submissions :: "submission list" where
  "example_submissions =
     [[''id'' \<mapsto> PyStr ''s1'', ''participant_id'' \<mapsto> PyStr ''p1'',
       ''status'' \<mapsto> PyStr ''AWAITING REVIEW'', ''study_code'' \<mapsto> PyStr ''TIMEOUT''],
      [''id'' \<mapsto> PyStr ''s2'', ''participant_id'' \<mapsto> PyStr ''p2'',
       ''status'' \<mapsto> PyStr ''AWAITING REVIEW'', ''study_code'' \<mapsto> PyStr ''TIMEOUT''],
      [''id'' \<mapsto> PyStr ''s3'', ''participant_id'' \<mapsto> PyStr ''p3'', ''study_code'' \<mapsto> PyNone]]"

definition example_participants :: participant_data where
  "example_participants =
     [''p1'' \<mapsto> [''prolific_id'' \<mapsto> PyStr ''p1'', ''status'' \<mapsto> PyStr ''APPROVED''],
      ''p2'' \<mapsto> [''prolific_id'' \<mapsto> PyStr ''p2'', ''status'' \<mapsto> PyStr '' REJECTED'']]"

text \<open>
  A local file with the columns \<^verbatim>\<open>prolific_id,status\<close> and the short line \<^verbatim>\<open>p1\<close>: the
  reader fills the \<^verbatim>\<open>status\<close> cell with \<^verbatim>\<open>None\<close>.
\<close>

definition short_line_participants :: participant_data where
  "short_line_participants = [''p1'' \<mapsto> [''prolific_id'' \<mapsto> PyStr ''p1'', ''status'' \<mapsto> PyNone]]"

section \<open>Latin square orders (PDF\_upload.py)\<close>

definition MODEL_NAMES :: "(string \<times> string) list" where
  "MODEL_NAMES =
     [(''model1'', ''GPT_4o_2025''),
      (''model2'', ''Claude_3_Opus''),
      (''model3'', ''Gemini_Ultra''),
      (''model4'', ''GPT_4_Turbo''),
      (''model5'', ''Claude_3_Sonnet'')]"

text \<open>\<^verbatim>\<open>list(MODEL_NAMES.values())\<close>, in insertion order.\<close>

definition model_names :: "string list" where
  "model_names = map snd MODEL_NAMES"

definition base_squares :: "nat list list" where
  "base_squares =
     [[0, 1, 2, 3, 4],
      [1, 2, 3, 4, 0],
      [2, 3, 4, 0, 1],
      [3, 4, 0, 1, 2],
      [4, 0, 1, 2, 3]]"

text \<open>
  The rows of the square as model names, before the shuffle:
  \<^verbatim>\<open>[model_names[i] for i in square_row]\<close> for every row of \<^verbatim>\<open>base_squares\<close>.
\<close>

definition named_squares :: "string list list" where
  "named_squares = map (\<lambda>square_row. map (\<lambda>i. model_names ! i) square_row) base_squares"

text \<open>
  \<^verbatim>\<open>generate_latin_square_orders\<close>. \<^verbatim>\<open>random.shuffle\<close> is the parameter \<open>shuffle\<close>: the
  list it leaves behind. The rows are then repeated, row \<open>i\<close> of the result being the
  shuffled row \<open>i % len(latin_square_orders)\<close>; \<^verbatim>\<open>range(n_rows)\<close> is empty for a negative
  \<^verbatim>\<open>n_rows\<close>. A shuffle permutes the five rows, so the length is 5 and neither the
  modulus nor the index can fail; the properties below assume no more of \<open>shuffle\<close>
  than that it returns a permutation of its argument.
\<close>

definition generate_latin_square_orders ::
  "(string list list \<Rightarrow> string list list) \<Rightarrow> int \<Rightarrow> int \<Rightarrow> py_error + string list list" where
  "generate_latin_square_orders shuffle n_models n_rows =
    (if n_models \<noteq> 5 then Inl ValueError
     else
       (let latin_square_orders = shuffle named_squares
        in Inr (map (\<lambda>i. latin_square_orders ! (i mod length latin_square_orders))
                  [0..<nat n_rows])))"

text \<open>
  The counting loop of \<^verbatim>\<open>verify_latin_square_balance\<close>:
  \<^verbatim>\<open>position_counts[model][position]\<close> is the number of rows that have \<open>model\<close> at
  \<open>position\<close>.
\<close>

definition position_count :: "string list list \<Rightarrow> string \<Rightarrow> nat \<Rightarrow> nat" where
  "position_count orders model position =
     length (filter (\<lambda>order. position < length order \<and> order ! position = model) orders)"

text \<open>The cyclic shift by \<open>k\<close> of the base permutation, as model names.\<close>

definition cyclic_shift :: "nat \<Rightarrow> string list" where
  "cyclic_shift k = map (\<lambda>i. model_names ! i) (rotate k [0, 1, 2, 3, 4])"

text \<open>The seven rows that the generator yields when the shuffle reverses the square.\<close>

definition example_orders :: "string list list" where
  "example_orders =
    [[''Claude_3_Sonnet'', ''GPT_4o_2025'', ''Claude_3_Opus'', ''Gemini_Ultra'', ''GPT_4_Turbo''],
     [''GPT_4_Turbo'', ''Claude_3_Sonnet'', ''GPT_4o_2025'', ''Claude_3_Opus'', ''Gemini_Ultra''],
     [''Gemini_Ultra'', ''GPT_4_Turbo'', ''Claude_3_Sonnet'', ''GPT_4o_2025'', ''Claude_3_Opus''],
     [''Claude_3_Opus'', ''Gemini_Ultra'', ''GPT_4_Turbo'', ''Claude_3_Sonnet'', ''GPT_4o_2025''],
     [''GPT_4o_2025'', ''Claude_3_Opus'', ''Gemini_Ultra'', ''GPT_4_Turbo'', ''Claude_3_Sonnet''],
     [''Claude_3_Sonnet'', ''GPT_4o_2025'', ''Claude_3_Opus'', ''Gemini_Ultra'', ''GPT_4_Turbo''],
     [''GPT_4_Turbo'', ''Claude_3_Sonnet'', ''GPT_4o_2025'', ''Claude_3_Opus'', ''Gemini_Ultra'']]"

section \<open>Firestore task service (URL\_database.py)\<close>

text \<open>
  A Firestore value, as far as the service reads and writes it: null, a boolean, an
  integer, a string, a timestamp; \<open>FNaN\<close> is the float NaN that pandas puts into an empty
  CSV cell. Values of different types are different, as Firestore's equality filter has
  it (the boolean true is not the integer 1).
\<close>

datatype fval = FNull | FBool bool | FInt int | FStr string | FTime nat | FNaN

type_synonym document = "string \<rightharpoonup> fval"

text \<open>
  The \<^verbatim>\<open>task_instances\<close> collection: document ids with their documents, in the order in
  which a query streams them.
\<close>

type_synonym collection = "(string \<times> document) list"

text \<open>\<^verbatim>\<open>task_data.get(k)\<close>: Python's \<^verbatim>\<open>None\<close> for a missing field.\<close>

definition doc_get :: "document \<Rightarrow> string \<Rightarrow> fval" where
  "doc_get d k = (case d k of Some v \<Rightarrow> v | None \<Rightarrow> FNull)"

text \<open>
  The filter \<^verbatim>\<open>where("task_id", "==", task_id).where("available", "==", True)\<close>.
\<close>

definition matches_query :: "string \<Rightarrow> document \<Rightarrow> bool" where
  "matches_query task_id d =
     (d ''task_id'' = Some (FStr task_id) \<and> d ''available'' = Some (FBool True))"

text \<open>\<^verbatim>\<open>list(query.limit(1).stream())\<close>: at most the first matching document.\<close>

definition query_limit_1 :: "collection \<Rightarrow> string \<Rightarrow> (string \<times> document) list" where
  "query_limit_1 db task_id = take 1 (filter (\<lambda>entry. matches_query task_id (snd entry)) db)"

text \<open>
  \<^verbatim>\<open>transaction.update(doc_ref, fields)\<close>: the fields are written into the document with
  that id, the other fields and the other documents stay.
\<close>

definition update_document :: "collection \<Rightarrow> string \<Rightarrow> (string \<times> fval) list \<Rightarrow> collection" where
  "update_document db doc_id updates =
     map (\<lambda>entry. if fst entry = doc_id then (fst entry, snd entry ++ map_of updates) else entry) db"

record response_data =
  task_url :: fval
  response_urls :: "fval list"
  task_instance_id :: string

text \<open>A JSON response: the payload with status 200, or an error message with its status.\<close>

datatype http_response = JsonOk response_data | JsonError string nat

text \<open>
  \<^verbatim>\<open>get_task_urls\<close>. The request carries the \<^verbatim>\<open>task_id\<close> query parameter or not
  (\<^verbatim>\<open>request.args.get\<close> gives \<^verbatim>\<open>None\<close>); \<open>now\<close> is \<^verbatim>\<open>datetime.now()\<close>. The result is
  the response and the collection after the request. The second query of the source
  only writes a log line and is left out; a failure of the database itself (the
  \<^verbatim>\<open>except\<close> branch, status 500) is outside this sequential model.
\<close>

definition get_task_urls :: "string option \<Rightarrow> nat \<Rightarrow> collection \<Rightarrow> http_response \<times> collection" where
  "get_task_urls task_id_param now db =
    (case task_id_param of
       None \<Rightarrow> (JsonError ''Missing task_id parameter'' 400, db)
     | Some task_id \<Rightarrow>
        (if task_id = [] then (JsonError ''Missing task_id parameter'' 400, db)
         else case query_limit_1 db task_id of
           [] \<Rightarrow> (JsonError (''No available task instances for task ID: '' @ task_id) 404, db)
         | task_doc # _ \<Rightarrow>
            (let task_data = snd task_doc;
                 response = \<lparr> task_url = doc_get task_data ''task_url'',
                              response_urls =
                                [doc_get task_data ''response_url_1'',
                                 doc_get task_data ''response_url_2'',
                                 doc_get task_data ''response_url_3'',
                                 doc_get task_data ''response_url_4'',
                                 doc_get task_data ''response_url_5''],
                              task_instance_id = fst task_doc \<rparr>
             in (JsonOk response,
                 update_document db (fst task_doc)
                   [(''available'', FBool False), (''assigned_at'', FTime now)]))))"

subsection \<open>Import\<close>

text \<open>
  The item of a CSV row: \<^verbatim>\<open>{k: (v if pd.notna(v) else None) for k, v in item.items()}\<close>.
\<close>

definition nan_to_none :: "document \<Rightarrow> document" where
  "nan_to_none item = (\<lambda>k. case item k of
                              None \<Rightarrow> None
                            | Some v \<Rightarrow> Some (if v = FNaN \<or> v = FNull then FNull else v))"

text \<open>
  \<^verbatim>\<open>str(item.get('task_instance_id', uuid.uuid4()))\<close>: \<open>str_of\<close> is Python's \<^verbatim>\<open>str\<close> on
  a stored value and \<open>uuid n\<close> the text of the UUID drawn for the \<open>n\<close>-th record.
\<close>

definition doc_id_of :: "(fval \<Rightarrow> string) \<Rightarrow> (nat \<Rightarrow> string) \<Rightarrow> nat \<Rightarrow> document \<Rightarrow> string" where
  "doc_id_of str_of uuid n item =
     (case item ''task_instance_id'' of Some v \<Rightarrow> str_of v | None \<Rightarrow> uuid n)"

text \<open>\<^verbatim>\<open>if 'available' not in item: item['available'] = True\<close>.\<close>

definition default_available :: "document \<Rightarrow> document" where
  "default_available item =
     (if ''available'' \<in> dom item then item else item(''available'' \<mapsto> FBool True))"

text \<open>
  An element of the parsed JSON file: an object, or something else, on which
  \<^verbatim>\<open>item.get\<close> raises.
\<close>

datatype jitem = JObj document | JOther

text \<open>
  One batch: the \<^verbatim>\<open>batch.set(doc_ref, item)\<close> calls of its items, as pairs of document id
  and record, or \<open>None\<close> when an item raises before \<^verbatim>\<open>batch.commit()\<close>. \<open>n\<close> is
  \<^verbatim>\<open>imported_count\<close> when the batch starts.
\<close>

fun batch_of_json ::
  "(fval \<Rightarrow> string) \<Rightarrow> (nat \<Rightarrow> string) \<Rightarrow> nat \<Rightarrow> jitem list \<Rightarrow> (string \<times> document) list option" where
  "batch_of_json str_of uuid n [] = Some []"
| "batch_of_json str_of uuid n (JOther # rest) = None"
| "batch_of_json str_of uuid n (JObj item # rest) =
     (case batch_of_json str_of uuid (Suc n) rest of
        None \<Rightarrow> None
      | Some ws \<Rightarrow> Some ((doc_id_of str_of uuid n item, default_available item) # ws))"

fun batch_of_csv ::
  "(fval \<Rightarrow> string) \<Rightarrow> (nat \<Rightarrow> string) \<Rightarrow> nat \<Rightarrow> document list \<Rightarrow> (string \<times> document) list" where
  "batch_of_csv str_of uuid n [] = []"
| "batch_of_csv str_of uuid n (row # rest) =
     (doc_id_of str_of uuid n (nan_to_none row), default_available (nan_to_none row))
       # batch_of_csv str_of uuid (Suc n) rest"

text \<open>
  The loops \<^verbatim>\<open>for i in range(0, len(items), batch_size)\<close> with \<^verbatim>\<open>batch_size = 400\<close>:
  the records committed so far are \<open>written\<close>. A batch whose item raises is not
  committed, and the request ends with status 500; the batches before it stay written.
\<close>

function import_json ::
  "(fval \<Rightarrow> string) \<Rightarrow> (nat \<Rightarrow> string) \<Rightarrow> nat \<Rightarrow> jitem list \<Rightarrow> (string \<times> document) list
   \<Rightarrow> (string \<times> document) list \<times> nat option" where
  "import_json str_of uuid n items written =
     (if items = [] then (written, Some n)
      else case batch_of_json str_of uuid n (take 400 items) of
        None \<Rightarrow> (written, None)
      | Some ws \<Rightarrow> import_json str_of uuid (n + length ws) (drop 400 items) (written @ ws))"
  by pat_completeness auto
termination
  by (relation "measure (\<lambda>(str_of, uuid, n, items, written). length items)") auto

function import_csv ::
  "(fval \<Rightarrow> string) \<Rightarrow> (nat \<Rightarrow> string) \<Rightarrow> nat \<Rightarrow> document list \<Rightarrow> (string \<times> document) list
   \<Rightarrow> (string \<times> document) list \<times> nat option" where
  "import_csv str_of uuid n rows written =
     (if rows = [] then (written, Some n)
      else import_csv str_of uuid (n + length (take 400 rows)) (drop 400 rows)
             (written @ batch_of_csv str_of uuid n (take 400 rows)))"
  by pat_completeness auto
termination
  by (relation "measure (\<lambda>(str_of, uuid, n, rows, written). length rows)") auto

text \<open>
  The parsed upload: the rows of \<^verbatim>\<open>pd.read_csv\<close> as dicts from column to cell, or the
  list of \<^verbatim>\<open>json.load\<close> (a single object is put into a list by the source).
\<close>

datatype upload = CsvFile "document list" | JsonFile "jitem list"

text \<open>
  \<^verbatim>\<open>import_data\<close> from the parsed file on: the records written, and the
  \<^verbatim>\<open>imported_count\<close> of the success response (\<open>None\<close> for the status 500).
\<close>

definition import_data ::
  "(fval \<Rightarrow> string) \<Rightarrow> (nat \<Rightarrow> string) \<Rightarrow> upload \<Rightarrow> (string \<times> document) list \<times> nat option" where
  "import_data str_of uuid file =
     (case file of
        CsvFile rows \<Rightarrow> import_csv str_of uuid 0 rows []
      | JsonFile items \<Rightarrow> import_json str_of uuid 0 items [])"

text \<open>The item from which a record of the upload is made, before the default is set.\<close>

definition source_items :: "upload \<Rightarrow> document set" where
  "source_items file =
     (case file of
        CsvFile rows \<Rightarrow> nan_to_none ` set rows
      | JsonFile items \<Rightarrow> {item. JObj item \<in> set items})"

text \<open>The objects of a parsed JSON list, in order.\<close>

fun objects_of :: "jitem list \<Rightarrow> document list" where
  "objects_of [] = []"
| "objects_of (JObj item # rest) = item # objects_of rest"
| "objects_of (JOther # rest) = objects_of rest"

subsection \<open>Example collection and upload\<close>

definition example_doc :: "string \<Rightarrow> bool \<Rightarrow> string \<Rightarrow> document" where
  "example_doc task available url =
     [''task_id'' \<mapsto> FStr task, ''available'' \<mapsto> FBool available, ''task_url'' \<mapsto> FStr url,
      ''response_url_1'' \<mapsto> FStr ''r1'', ''response_url_2'' \<mapsto> FStr ''r2'',
      ''response_url_3'' \<mapsto> FStr ''r3'', ''response_url_4'' \<mapsto> FStr ''r4'']"

definition example_db :: collection where
  "example_db =
     [(''a'', example_doc ''t1'' False ''url_a''),
      (''b'', example_doc ''t1'' True ''url_b''),
      (''c'', example_doc ''t1'' True ''url_c'')]"

definition example_str :: "fval \<Rightarrow> string" where
  "example_str v = (case v of FStr s \<Rightarrow> s | _ \<Rightarrow> ''None'')"

definition example_uuid :: "nat \<Rightarrow> string" where
  "example_uuid n = ''uuid'' @ replicate n CHR ''+''"

definition example_item1 :: document where
  "example_item1 = [''task_id'' \<mapsto> FStr ''t1'']"

definition example_item2 :: document where
  "example_item2 = [''task_instance_id'' \<mapsto> FStr ''7'', ''available'' \<mapsto> FBool False]"

text \<open>
  A row of a CSV file with the columns \<^verbatim>\<open>task_id,available,task_url\<close> whose
  \<^verbatim>\<open>available\<close> cell is empty (pandas reads it as NaN), and a row of a file without
  that column.
\<close>

definition example_csv_row :: document where
  "example_csv_row =
     [''task_id'' \<mapsto> FStr ''t1'', ''available'' \<mapsto> FNaN, ''task_url'' \<mapsto> FStr ''url_1'']"

definition example_csv_row2 :: document where
  "example_csv_row2 = [''task_id'' \<mapsto> FStr ''t1'', ''task_url'' \<mapsto> FNaN]"

section \<open>SQLite task service (qualtrics\_database.py)\<close>

text \<open>
  The three tables, a row as a record, a table as the list of its rows. The columns
  \<^verbatim>\<open>is_assigned\<close>, \<^verbatim>\<open>is_completed\<close> and \<^verbatim>\<open>assigned_round\<close> hold what the service writes
  into them: booleans and a round number. The external \<^verbatim>\<open>task_id\<close> has INTEGER
  affinity, so the text of the request is compared as the integer it denotes.
\<close>

record task_row =
  t_id :: int
  t_task_id :: int
  t_occupation :: string

record task_instance_row =
  ti_id :: int
  ti_task_id :: int
  ti_instance_number :: int
  ti_pdf_url :: string
  ti_is_assigned :: bool
  ti_is_completed :: bool
  ti_assigned_round :: int

record model_response_row =
  mr_id :: int
  mr_task_instance_id :: int
  mr_model_number :: int
  mr_pdf_url :: string

record database =
  tasks :: "task_row list"
  task_instances :: "task_instance_row list"
  model_responses :: "model_response_row list"

text \<open>
  The \<^verbatim>\<open>WHERE\<close> clause of the instance query:
  \<^verbatim>\<open>task_id = ? AND ((is_assigned = FALSE) OR (is_completed = FALSE AND assigned_round < ?))\<close>.
\<close>

definition eligible :: "int \<Rightarrow> int \<Rightarrow> task_instance_row \<Rightarrow> bool" where
  "eligible task_db_id round_id r =
     (ti_task_id r = task_db_id
      \<and> (\<not> ti_is_assigned r \<or> (\<not> ti_is_completed r \<and> ti_assigned_round r < round_id)))"

text \<open>\<^verbatim>\<open>ORDER BY instance_number ASC LIMIT 1\<close>: a row of least instance number, if any.\<close>

fun lowest_instance :: "task_instance_row list \<Rightarrow> task_instance_row option" where
  "lowest_instance [] = None"
| "lowest_instance (r # rs) =
     (case lowest_instance rs of
        None \<Rightarrow> Some r
      | Some m \<Rightarrow> if ti_instance_number r \<le> ti_instance_number m then Some r else Some m)"

text \<open>
  \<^verbatim>\<open>UPDATE task_instances SET is_assigned = TRUE, assigned_round = ? WHERE id = ?\<close>.
\<close>

definition mark_assigned :: "int \<Rightarrow> int \<Rightarrow> task_instance_row list \<Rightarrow> task_instance_row list" where
  "mark_assigned round_id instance_id rows =
     map (\<lambda>r. if ti_id r = instance_id
              then r \<lparr> ti_is_assigned := True, ti_assigned_round := round_id \<rparr> else r) rows"

text \<open>\<^verbatim>\<open>SELECT pdf_url FROM model_responses WHERE task_instance_id = ?\<close>.\<close>

definition responses_of :: "database \<Rightarrow> int \<Rightarrow> string list" where
  "responses_of db instance_id =
     map mr_pdf_url (filter (\<lambda>m. mr_task_instance_id m = instance_id) (model_responses db))"

text \<open>
  \<^verbatim>\<open>get_next_task_instance\<close>. \<open>sample\<close> is \<^verbatim>\<open>random.sample\<close>; a model URL is
  \<open>Some url\<close> or \<open>None\<close> for the padding. The result is the returned value and the
  database after the commit.
\<close>

definition get_next_task_instance ::
  "(string list \<Rightarrow> nat \<Rightarrow> string list) \<Rightarrow> database \<Rightarrow> int \<Rightarrow> string \<Rightarrow> int
   \<Rightarrow> (string \<times> string option list) option \<times> database" where
  "get_next_task_instance sample db task_id occupation round_id =
    (case find (\<lambda>t. t_task_id t = task_id \<and> t_occupation t = occupation) (tasks db) of
       None \<Rightarrow> (None, db)
     | Some task_row \<Rightarrow>
        (case lowest_instance (filter (eligible (t_id task_row) round_id) (task_instances db)) of
           None \<Rightarrow> (None, db)
         | Some instance \<Rightarrow>
            (let instance_id = ti_id instance;
                 instance_url = ti_pdf_url instance;
                 db' = db \<lparr> task_instances := mark_assigned round_id instance_id (task_instances db) \<rparr>;
                 all_models = responses_of db' instance_id;
                 selected_models =
                   (if length all_models > 5 then map Some (sample all_models 5)
                    else map Some all_models @ replicate (5 - length all_models) None)
             in (Some (instance_url, selected_models), db'))))"

subsection \<open>Example database\<close>

definition example_instance :: task_instance_row where
  "example_instance =
     \<lparr> ti_id = 10, ti_task_id = 1, ti_instance_number = 1, ti_pdf_url = ''inst10.pdf'',
       ti_is_assigned = True, ti_is_completed = False, ti_assigned_round = 1 \<rparr>"

definition example_instance2 :: task_instance_row where
  "example_instance2 =
     \<lparr> ti_id = 20, ti_task_id = 2, ti_instance_number = 1, ti_pdf_url = ''inst20.pdf'',
       ti_is_assigned = False, ti_is_completed = False, ti_assigned_round = 0 \<rparr>"

definition example_response :: "int \<Rightarrow> int \<Rightarrow> string \<Rightarrow> model_response_row" where
  "example_response instance_id n url =
     \<lparr> mr_id = 100 * instance_id + n, mr_task_instance_id = instance_id, mr_model_number = n,
       mr_pdf_url = url \<rparr>"

definition example_sql_db :: database where
  "example_sql_db =
     \<lparr> tasks = [\<lparr> t_id = 1, t_task_id = 7, t_occupation = ''nurse'' \<rparr>,
                \<lparr> t_id = 2, t_task_id = 8, t_occupation = ''clerk'' \<rparr>],
       task_instances = [example_instance, example_instance2],
       model_responses =
         [example_response 10 1 ''a1'', example_response 10 2 ''a2'',
          example_response 20 1 ''b1'', example_response 20 2 ''b2'',
          example_response 20 3 ''b3'', example_response 20 4 ''b4'',
          example_response 20 5 ''b5'', example_response 20 6 ''b6''] \<rparr>"

text \<open>A sampler for the examples: the first \<open>k\<close> elements.\<close>

definition example_sample :: "string list \<Rightarrow> nat \<Rightarrow> string list" where
  "example_sample xs k = take k xs"

text \<open>The example database after the two requests of the examples.\<close>

definition example_sql_db_nurse :: database where
  "example_sql_db_nurse =
     example_sql_db \<lparr> task_instances :=
       [example_instance \<lparr> ti_is_assigned := True, ti_assigned_round := 2 \<rparr>, example_instance2] \<rparr>"

definition example_sql_db_clerk :: database where
  "example_sql_db_clerk =
     example_sql_db \<lparr> task_instances :=
       [example_instance, example_instance2 \<lparr> ti_is_assigned := True, ti_assigned_round := 1 \<rparr>] \<rparr>"

section \<open>Properties of the completion-code policy\<close>

lemma code_of_simps:
  "code_of ''APPROVED'' = ''C1G9PC0D''"
  "code_of ''SCREENED_OUT'' = ''C1NFUEQ1''"
  "code_of ''FAILED_ATTENTION'' = ''C1M8R1Y4''"
  "code_of ''NO_CONSENT'' = ''COISODYI''"
  by (simp_all add: code_of_def COMPLETION_CODES_def)

lemma completion_code_values:
  "set (map snd COMPLETION_CODES) = {''C1G9PC0D'', ''C1NFUEQ1'', ''C1M8R1Y4'', ''COISODYI''}"
  by (auto simp add: COMPLETION_CODES_def)

text \<open>On a row of strings no cell raises.\<close>

lemma get_strip_str_row: "\<exists>s. get_strip strip (str_row flags) k = Inr s"
  by (simp add: get_strip_def str_row_def split: option.split)

lemma get_strip_upper_str_row: "\<exists>s. get_strip_upper strip upper (str_row flags) k = Inr s"
  using get_strip_str_row [of strip flags k] by (auto simp add: get_strip_upper_def)

lemma flag_true_str_row: "\<exists>b. flag_true strip upper (str_row flags) k = Inr b"
  using get_strip_upper_str_row [of strip upper flags k] by (auto simp add: flag_true_def)

lemma first_screening_flag_str_row:
  "\<exists>f. first_screening_flag strip upper (str_row flags) fs = Inr f"
proof (induction fs)
  case Nil
  show ?case by simp
next
  case (Cons f fs)
  from flag_true_str_row [of strip upper flags f]
  obtain b where "flag_true strip upper (str_row flags) f = Inr b" by blast
  with Cons show ?case by simp
qed

lemma determine_code_cases:
  "\<exists>code reason. determine_completion_code strip upper (str_row flags) = Inr (code, reason)
     \<and> code \<in> {Some ''C1G9PC0D'', Some ''C1NFUEQ1'', Some ''C1M8R1Y4'', Some ''COISODYI'', None}"
proof -
  let ?r = "str_row flags"
  obtain b1 where b1: "flag_true strip upper ?r ''no_consent'' = Inr b1"
    using flag_true_str_row by blast
  obtain b2 where b2: "flag_true strip upper ?r ''failed_two_plus_attention_checks'' = Inr b2"
    using flag_true_str_row by blast
  obtain f where f: "first_screening_flag strip upper ?r screening_flags = Inr f"
    using first_screening_flag_str_row by blast
  obtain b3 where b3: "flag_true strip upper ?r ''screened_out'' = Inr b3"
    using flag_true_str_row by blast
  obtain b4 where b4: "flag_true strip upper ?r ''incomplete_survey_other_reasons'' = Inr b4"
    using flag_true_str_row by blast
  obtain b5 where b5: "flag_true strip upper ?r ''completed_survey'' = Inr b5"
    using flag_true_str_row by blast
  obtain a where a: "get_strip_upper strip upper ?r ''approved'' = Inr a"
    using get_strip_upper_str_row by blast
  show ?thesis
    unfolding determine_completion_code_def b1 b2 f b3 b4 b5 a code_of_simps
    by (simp split: option.split)
qed

lemma no_consent_first:
  assumes "flag_true strip upper csv_row ''no_consent'' = Inr True"
  shows "\<exists>reason. determine_completion_code strip upper csv_row = Inr (Some ''COISODYI'', reason)"
  unfolding determine_completion_code_def assms code_of_simps by simp

text \<open>
  C6: for every CSV row of flag strings, \<^verbatim>\<open>determine_completion_code\<close> returns a pair
  whose code is one of the four codes of \<^verbatim>\<open>COMPLETION_CODES\<close> or \<^verbatim>\<open>None\<close>; a set
  \<^verbatim>\<open>no_consent\<close> flag gives the NO\_CONSENT code whatever the other cells are; and
  \<^verbatim>\<open>get_api_action_for_completion_code\<close> answers SKIP for the APPROVED code, SCREEN\_OUT
  for the SCREENED\_OUT code, REJECT for the FAILED\_ATTENTION and NO\_CONSENT codes and
  MANUAL\_REVIEW for every other input.
\<close>

theorem completion_policy:
  "(\<exists>code reason. determine_completion_code strip upper (str_row flags) = Inr (code, reason)
       \<and> code \<in> insert None (Some ` set (map snd COMPLETION_CODES)))
   \<and> (flag_true strip upper csv_row ''no_consent'' = Inr True \<longrightarrow>
        (\<exists>reason. determine_completion_code strip upper csv_row =
                    Inr (map_of COMPLETION_CODES ''NO_CONSENT'', reason)))
   \<and> get_api_action_for_completion_code (map_of COMPLETION_CODES ''APPROVED'') = ''SKIP''
   \<and> get_api_action_for_completion_code (map_of COMPLETION_CODES ''SCREENED_OUT'') = ''SCREEN_OUT''
   \<and> get_api_action_for_completion_code (map_of COMPLETION_CODES ''FAILED_ATTENTION'') = ''REJECT''
   \<and> get_api_action_for_completion_code (map_of COMPLETION_CODES ''NO_CONSENT'') = ''REJECT''
   \<and> (c \<notin> Some ` set (map snd COMPLETION_CODES) \<longrightarrow>
        get_api_action_for_completion_code c = ''MANUAL_REVIEW'')"
proof -
  note vals = completion_code_values
  have a: "\<exists>code reason. determine_completion_code strip upper (str_row flags) = Inr (code, reason)
       \<and> code \<in> insert None (Some ` set (map snd COMPLETION_CODES))"
    using determine_code_cases [of strip upper flags] unfolding vals by auto
  have m: "map_of COMPLETION_CODES ''NO_CONSENT'' = Some ''COISODYI''"
    by (simp add: COMPLETION_CODES_def)
  have b: "flag_true strip upper csv_row ''no_consent'' = Inr True \<longrightarrow>
        (\<exists>reason. determine_completion_code strip upper csv_row =
                    Inr (map_of COMPLETION_CODES ''NO_CONSENT'', reason))"
    unfolding m using no_consent_first by blast
  have c: "get_api_action_for_completion_code (map_of COMPLETION_CODES ''APPROVED'') = ''SKIP''"
    "get_api_action_for_completion_code (map_of COMPLETION_CODES ''SCREENED_OUT'') = ''SCREEN_OUT''"
    "get_api_action_for_completion_code (map_of COMPLETION_CODES ''FAILED_ATTENTION'') = ''REJECT''"
    "get_api_action_for_completion_code (map_of COMPLETION_CODES ''NO_CONSENT'') = ''REJECT''"
    by (simp_all add: get_api_action_for_completion_code_def code_of_simps COMPLETION_CODES_def)
  have d: "c \<notin> Some ` set (map snd COMPLETION_CODES) \<longrightarrow>
        get_api_action_for_completion_code c = ''MANUAL_REVIEW''"
    unfolding vals
    by (cases c) (auto simp add: get_api_action_for_completion_code_def code_of_simps)
  from a b c d show ?thesis by blast
qed

lemma example_flags_no_consent:
  "flag_true ascii_strip ascii_upper (str_row example_flags) ''no_consent'' = Inr True"
  by code_simp

theorem completion_policy_witness:
  "flag_true ascii_strip ascii_upper (str_row example_flags) ''no_consent'' = Inr True
   \<and> (\<exists>reason. determine_completion_code ascii_strip ascii_upper (str_row example_flags) =
                  Inr (Some ''COISODYI'', reason))
   \<and> Some ''XYZ'' \<notin> Some ` set (map snd COMPLETION_CODES)
   \<and> get_api_action_for_completion_code (Some ''XYZ'') = ''MANUAL_REVIEW''"
proof -
  have h1: "flag_true ascii_strip ascii_upper (str_row example_flags) ''no_consent'' = Inr True"
    by (rule example_flags_no_consent)
  have h2: "Some ''XYZ'' \<notin> Some ` set (map snd COMPLETION_CODES)"
    by (simp add: COMPLETION_CODES_def)
  have m: "map_of COMPLETION_CODES ''NO_CONSENT'' = Some ''COISODYI''"
    by (simp add: COMPLETION_CODES_def)
  from completion_policy [of ascii_strip ascii_upper example_flags "str_row example_flags" "Some ''XYZ''"]
    h1 h2 show ?thesis unfolding m by blast
qed

lemma find_name_unknown:
  "c \<notin> set (map snd COMPLETION_CODES) \<Longrightarrow> find_name COMPLETION_CODES c = None"
  by (auto simp add: COMPLETION_CODES_def)

text \<open>
  C9: the four codes of \<^verbatim>\<open>COMPLETION_CODES\<close> are pairwise distinct; for every name of
  the dict, \<^verbatim>\<open>get_code_name\<close> of its code is that name; and
  \<^verbatim>\<open>is_known_completion_code c\<close> holds exactly when \<^verbatim>\<open>get_code_name c\<close> is one of the
  four configured names.
\<close>

theorem code_name_roundtrip:
  "distinct (map snd COMPLETION_CODES)
   \<and> (map_of COMPLETION_CODES name = Some code \<longrightarrow> get_code_name code = name)
   \<and> (is_known_completion_code c \<longleftrightarrow> get_code_name c \<in> set (map fst COMPLETION_CODES))"
proof -
  have a: "distinct (map snd COMPLETION_CODES)"
    by (simp add: COMPLETION_CODES_def)
  have b: "map_of COMPLETION_CODES name = Some code \<longrightarrow> get_code_name code = name"
    by (auto simp add: COMPLETION_CODES_def get_code_name_def split: if_splits)
  have c: "is_known_completion_code c \<longleftrightarrow> get_code_name c \<in> set (map fst COMPLETION_CODES)"
  proof (cases "c \<in> set (map snd COMPLETION_CODES)")
    case True
    then show ?thesis
      by (auto simp add: is_known_completion_code_def COMPLETION_CODES_def get_code_name_def)
  next
    case False
    have "get_code_name c \<notin> set (map fst COMPLETION_CODES)"
    proof (cases "c = []")
      case True
      then show ?thesis by (simp add: get_code_name_def COMPLETION_CODES_def)
    next
      case nonempty: False
      have "get_code_name c = ''UNKNOWN('' @ c @ '')''"
        using nonempty find_name_unknown [OF False] by (simp add: get_code_name_def)
      moreover have "last (''UNKNOWN('' @ c @ '')'') = CHR '')''" by simp
      ultimately have "last (get_code_name c) = CHR '')''" by simp
      then show ?thesis by (auto simp add: COMPLETION_CODES_def)
    qed
    with False show ?thesis by (simp add: is_known_completion_code_def)
  qed
  from a b c show ?thesis by blast
qed

theorem code_name_roundtrip_witness:
  "map_of COMPLETION_CODES ''SCREENED_OUT'' = Some ''C1NFUEQ1''
   \<and> get_code_name ''C1NFUEQ1'' = ''SCREENED_OUT''"
proof -
  have h: "map_of COMPLETION_CODES ''SCREENED_OUT'' = Some ''C1NFUEQ1''"
    by (simp add: COMPLETION_CODES_def)
  from code_name_roundtrip [of "''SCREENED_OUT''" "''C1NFUEQ1''"] h show ?thesis by blast
qed

section \<open>Properties of the review plan\<close>

text \<open>The agreement test of the source is membership in the table of accepted pairs.\<close>

lemma agreement_table_iff: "agreement (PyStr code) status \<longleftrightarrow> (code, status) \<in> set agreement_table"
  by (auto simp add: agreement_def agreement_table_def)

lemma agreement_none: "\<not> truthy PyNone"
  by (simp add: truthy_def)

text \<open>
  One pass of the loop over string cells appends exactly one entry; the entry is a
  MISMATCH exactly for a counted mismatch, and then the mismatch counter goes up by one.
\<close>

lemma review_step_row:
  assumes row: "lookup_participant pd (sub_get sub ''participant_id'') = Some row"
    and st: "get_strip strip row ''status'' = Inr status"
    and rs: "get_strip strip row ''reason'' = Inr reason"
    and ct: "get_strip strip row ''category'' = Inr category"
  shows "\<exists>e s. review_step strip pd acc sub = Inr (fst acc @ [e], s)
       \<and> (validation_status e = ''MISMATCH'' \<longleftrightarrow>
            truthy (sub_get_default sub ''study_code'' []) \<and> status \<noteq> []
            \<and> \<not> agreement (sub_get_default sub ''study_code'' []) status)
       \<and> mismatches s = mismatches (snd acc) +
            (if truthy (sub_get_default sub ''study_code'' []) \<and> status \<noteq> []
                \<and> \<not> agreement (sub_get_default sub ''study_code'' []) status then 1 else 0)"
  unfolding review_step_def Let_def row st rs ct option.case sum.case
  by simp

lemma review_step_no_row:
  assumes "lookup_participant pd (sub_get sub ''participant_id'') = None"
  shows "\<exists>e s. review_step strip pd acc sub = Inr (fst acc @ [e], s)
       \<and> validation_status e \<noteq> ''MISMATCH'' \<and> mismatches s = mismatches (snd acc)"
  unfolding review_step_def Let_def assms option.case
  by simp

lemma counted_no_row:
  assumes "lookup_participant pd (sub_get sub ''participant_id'') = None"
  shows "\<not> counted_as_mismatch strip pd sub"
  using assms
  by (auto simp add: counted_as_mismatch_def lookup_participant_def sub_get_def
        split: option.splits pyval.splits)

lemma counted_row:
  assumes row: "lookup_participant pd (sub_get sub ''participant_id'') = Some row"
    and st: "get_strip strip row ''status'' = Inr status"
  shows "counted_as_mismatch strip pd sub \<longleftrightarrow>
           truthy (sub_get_default sub ''study_code'' []) \<and> status \<noteq> []
           \<and> \<not> agreement (sub_get_default sub ''study_code'' []) status"
proof -
  from row obtain pid where pid: "sub ''participant_id'' = Some (PyStr pid)" and pd: "pd pid = Some row"
    by (auto simp add: lookup_participant_def sub_get_def split: option.splits pyval.splits)
  show ?thesis
  proof (cases "sub ''study_code''")
    case None
    then show ?thesis
      by (simp add: counted_as_mismatch_def pid pd sub_get_default_def truthy_def)
  next
    case (Some v)
    show ?thesis
    proof (cases v)
      case PyNone
      with Some show ?thesis
        by (simp add: counted_as_mismatch_def pid pd sub_get_default_def truthy_def)
    next
      case (PyStr code)
      with Some have c: "sub_get_default sub ''study_code'' [] = PyStr code"
        by (simp add: sub_get_default_def)
      from st show ?thesis
        unfolding c agreement_table_iff
        by (auto simp add: counted_as_mismatch_def pid pd Some PyStr truthy_def get_strip_def
              split: option.splits pyval.splits)
    qed
  qed
qed

lemma review_step_ok:
  assumes "cells_are_strings pd sub"
  shows "\<exists>e s. review_step strip pd acc sub = Inr (fst acc @ [e], s)
       \<and> (validation_status e = ''MISMATCH'' \<longleftrightarrow> counted_as_mismatch strip pd sub)
       \<and> mismatches s = mismatches (snd acc) + (if counted_as_mismatch strip pd sub then 1 else 0)"
proof (cases "lookup_participant pd (sub_get sub ''participant_id'')")
  case None
  from review_step_no_row [OF None, of strip acc] counted_no_row [OF None, of strip]
  show ?thesis by auto
next
  case (Some row)
  with assms have cells: "row ''status'' \<noteq> Some PyNone" "row ''reason'' \<noteq> Some PyNone"
      "row ''category'' \<noteq> Some PyNone"
    by (simp_all add: cells_are_strings_def)
  have ok: "\<exists>s. get_strip strip row k = Inr s" if "row k \<noteq> Some PyNone" for k
    using that by (auto simp add: get_strip_def split: option.splits pyval.splits)
  from ok [OF cells(1)] obtain status where st: "get_strip strip row ''status'' = Inr status" by blast
  from ok [OF cells(2)] obtain reason where rs: "get_strip strip row ''reason'' = Inr reason" by blast
  from ok [OF cells(3)] obtain category where ct: "get_strip strip row ''category'' = Inr category"
    by blast
  from review_step_row [OF Some st rs ct, of acc] counted_row [OF Some st]
  show ?thesis by auto
qed

lemma review_step_raises:
  assumes "\<not> cells_are_strings pd sub"
  shows "review_step strip pd acc sub = Inl AttributeError"
proof -
  from assms obtain row where row: "lookup_participant pd (sub_get sub ''participant_id'') = Some row"
    and bad: "row ''status'' = Some PyNone \<or> row ''reason'' = Some PyNone
              \<or> row ''category'' = Some PyNone"
    by (auto simp add: cells_are_strings_def split: option.splits)
  have e: "get_strip strip row k = Inl AttributeError" if "row k = Some PyNone" for k
    using that by (simp add: get_strip_def)
  have r: "get_strip strip row k = Inl AttributeError \<or> (\<exists>s. get_strip strip row k = Inr s)" for k
    by (auto simp add: get_strip_def split: option.splits pyval.splits)
  from r [of "''status''"] r [of "''reason''"] bad e show ?thesis
    unfolding review_step_def Let_def row option.case
    by (elim disjE exE) simp_all
qed

lemma review_loop_ok:
  assumes "list_all (cells_are_strings pd) subs"
  shows "\<exists>plan s. review_loop strip pd acc subs = Inr (fst acc @ plan, s)
           \<and> length plan = length subs
           \<and> mismatches s = mismatches (snd acc)
                + length (filter (\<lambda>e. validation_status e = ''MISMATCH'') plan)
           \<and> (\<forall>i<length subs. validation_status (plan ! i) = ''MISMATCH''
                 \<longleftrightarrow> counted_as_mismatch strip pd (subs ! i))"
  using assms
proof (induction subs arbitrary: acc)
  case Nil
  show ?case by (cases acc) simp
next
  case (Cons sub subs)
  from Cons.prems have c: "cells_are_strings pd sub" and rest: "list_all (cells_are_strings pd) subs"
    by simp_all
  from review_step_ok [OF c, of strip acc] obtain e s where
    step: "review_step strip pd acc sub = Inr (fst acc @ [e], s)"
    and st: "validation_status e = ''MISMATCH'' \<longleftrightarrow> counted_as_mismatch strip pd sub"
    and cnt: "mismatches s = mismatches (snd acc) + (if counted_as_mismatch strip pd sub then 1 else 0)"
    by blast
  from Cons.IH [OF rest, of "(fst acc @ [e], s)"] obtain plan s' where
    loop: "review_loop strip pd (fst acc @ [e], s) subs = Inr ((fst acc @ [e]) @ plan, s')"
    and len: "length plan = length subs"
    and mm: "mismatches s' = mismatches s
                + length (filter (\<lambda>e. validation_status e = ''MISMATCH'') plan)"
    and nth: "\<And>i. i < length subs \<Longrightarrow> validation_status (plan ! i) = ''MISMATCH''
                 \<longleftrightarrow> counted_as_mismatch strip pd (subs ! i)"
    by (simp only: fst_conv snd_conv) blast
  have a: "review_loop strip pd acc (sub # subs) = Inr (fst acc @ (e # plan), s')"
    by (simp add: step loop)
  have b: "length (e # plan) = length (sub # subs)" by (simp add: len)
  have m: "mismatches s' = mismatches (snd acc)
                + length (filter (\<lambda>e. validation_status e = ''MISMATCH'') (e # plan))"
    using st by (simp add: mm cnt)
  have n: "validation_status ((e # plan) ! i) = ''MISMATCH''
             \<longleftrightarrow> counted_as_mismatch strip pd ((sub # subs) ! i)" if "i < length (sub # subs)" for i
  proof (cases i)
    case 0
    with st show ?thesis by simp
  next
    case (Suc j)
    with that have "j < length subs" by simp
    from nth [OF this] Suc show ?thesis by simp
  qed
  from a b m n show ?case by blast
qed

lemma review_loop_raises:
  assumes "\<not> list_all (cells_are_strings pd) subs"
  shows "review_loop strip pd acc subs = Inl AttributeError"
  using assms
proof (induction subs arbitrary: acc)
  case Nil
  then show ?case by simp
next
  case (Cons sub subs)
  show ?case
  proof (cases "cells_are_strings pd sub")
    case False
    from review_step_raises [OF False] show ?thesis by simp
  next
    case True
    with Cons.prems have rest: "\<not> list_all (cells_are_strings pd) subs" by simp
    from review_step_ok [OF True, of strip acc] obtain acc' where
      "review_step strip pd acc sub = Inr acc'" by blast
    with Cons.IH [OF rest, of acc'] show ?thesis by simp
  qed
qed

text \<open>
  C7, for rows whose cells are strings: for every list of submissions and every
  participant-data map in which the \<^verbatim>\<open>status\<close>, \<^verbatim>\<open>reason\<close> and \<^verbatim>\<open>category\<close> cells
  of the submissions' participants are strings, \<^verbatim>\<open>generate_review_plan\<close> yields one plan
  entry per submission, the mismatch count of its summary is the number of entries whose
  \<^verbatim>\<open>validation_status\<close> is MISMATCH, and the entry of a submission is a MISMATCH exactly
  when the submission has a completion code and a local status whose pair is outside the
  agreement table. When one of these cells is \<^verbatim>\<open>None\<close>, the function raises
  AttributeError and returns no plan.
\<close>

theorem review_plan_counts:
  "(list_all (cells_are_strings pd) subs \<longrightarrow>
      (\<exists>plan. generate_review_plan strip subs pd = Inr plan
         \<and> length plan = length subs
         \<and> reported_mismatches strip subs pd =
             Inr (length (filter (\<lambda>e. validation_status e = ''MISMATCH'') plan))
         \<and> (\<forall>i<length subs. validation_status (plan ! i) = ''MISMATCH''
               \<longleftrightarrow> counted_as_mismatch strip pd (subs ! i))))
   \<and> (\<not> list_all (cells_are_strings pd) subs \<longrightarrow>
        generate_review_plan strip subs pd = Inl AttributeError)"
proof -
  have ok: "\<exists>plan. generate_review_plan strip subs pd = Inr plan
         \<and> length plan = length subs
         \<and> reported_mismatches strip subs pd =
             Inr (length (filter (\<lambda>e. validation_status e = ''MISMATCH'') plan))
         \<and> (\<forall>i<length subs. validation_status (plan ! i) = ''MISMATCH''
               \<longleftrightarrow> counted_as_mismatch strip pd (subs ! i))"
    if "list_all (cells_are_strings pd) subs"
  proof -
    from review_loop_ok [OF that, of strip "([], empty_summary)"] obtain plan s where
      run: "review_run strip subs pd = Inr (plan, s)"
      and len: "length plan = length subs"
      and mm: "mismatches s = length (filter (\<lambda>e. validation_status e = ''MISMATCH'') plan)"
      and nth: "\<forall>i<length subs. validation_status (plan ! i) = ''MISMATCH''
                 \<longleftrightarrow> counted_as_mismatch strip pd (subs ! i)"
      by (auto simp add: review_run_def empty_summary_def)
    have "generate_review_plan strip subs pd = Inr plan"
      by (simp add: generate_review_plan_def run)
    moreover have "reported_mismatches strip subs pd =
             Inr (length (filter (\<lambda>e. validation_status e = ''MISMATCH'') plan))"
      by (simp add: reported_mismatches_def run mm)
    ultimately show ?thesis using len nth by blast
  qed
  have bad: "generate_review_plan strip subs pd = Inl AttributeError"
    if "\<not> list_all (cells_are_strings pd) subs"
    using review_loop_raises [OF that, of strip "([], empty_summary)"]
    by (simp add: generate_review_plan_def review_run_def)
  from ok bad show ?thesis by blast
qed

lemma example_cells: "list_all (cells_are_strings example_participants) example_submissions"
  by (simp add: example_submissions_def example_participants_def cells_are_strings_def
        lookup_participant_def sub_get_def)

lemma example_short_line:
  "\<not> list_all (cells_are_strings short_line_participants) (take 1 example_submissions)"
  by (simp add: example_submissions_def short_line_participants_def cells_are_strings_def
        lookup_participant_def sub_get_def)

lemma example_counted:
  "counted_as_mismatch ascii_strip example_participants (example_submissions ! 0)"
  by code_simp

theorem review_plan_counts_witness:
  "list_all (cells_are_strings example_participants) example_submissions
   \<and> (0::nat) < length example_submissions
   \<and> (\<exists>plan. generate_review_plan ascii_strip example_submissions example_participants = Inr plan
         \<and> length plan = 3
         \<and> validation_status (plan ! 0) = ''MISMATCH'')
   \<and> counted_as_mismatch ascii_strip example_participants (example_submissions ! 0)
   \<and> \<not> list_all (cells_are_strings short_line_participants) (take 1 example_submissions)
   \<and> generate_review_plan ascii_strip (take 1 example_submissions) short_line_participants
        = Inl AttributeError"
proof -
  have h: "(0::nat) < length example_submissions"
    by (simp add: example_submissions_def)
  have l: "length example_submissions = 3"
    by (simp add: example_submissions_def)
  from review_plan_counts [of example_participants example_submissions ascii_strip] example_cells
  obtain plan where p: "generate_review_plan ascii_strip example_submissions example_participants = Inr plan"
    and len: "length plan = length example_submissions"
    and nth: "\<forall>i<length example_submissions. validation_status (plan ! i) = ''MISMATCH''
               \<longleftrightarrow> counted_as_mismatch ascii_strip example_participants (example_submissions ! i)"
    by blast
  from nth h example_counted have "validation_status (plan ! 0) = ''MISMATCH''" by blast
  with p len l have ex: "\<exists>plan. generate_review_plan ascii_strip example_submissions example_participants = Inr plan
         \<and> length plan = 3 \<and> validation_status (plan ! 0) = ''MISMATCH''"
    by simp
  from review_plan_counts [of short_line_participants "take 1 example_submissions" ascii_strip]
    example_short_line
  have r: "generate_review_plan ascii_strip (take 1 example_submissions) short_line_participants
        = Inl AttributeError" by blast
  from example_cells h ex example_counted example_short_line r show ?thesis by blast
qed

text \<open>
  The restriction to string cells is needed: for the local file with a short line, the
  only submission is of the participant of that line, and no plan is returned.
\<close>

theorem review_plan_short_line_counterexample:
  "short_line_participants ''p1'' = Some [''prolific_id'' \<mapsto> PyStr ''p1'', ''status'' \<mapsto> PyNone]
   \<and> sub_get (hd example_submissions) ''participant_id'' = PyStr ''p1''
   \<and> generate_review_plan ascii_strip [hd example_submissions] short_line_participants
        = Inl AttributeError"
  by (simp add: generate_review_plan_def review_run_def review_step_def Let_def
        example_submissions_def short_line_participants_def lookup_participant_def sub_get_def
        get_strip_def)

section \<open>Properties of the Latin square orders\<close>

lemma named_squares_eq: "named_squares = map cyclic_shift [0..<5]"
  by (simp add: named_squares_def base_squares_def cyclic_shift_def upt_rec numeral_eq_Suc)

lemma named_squares_explicit:
  "named_squares =
    [[''GPT_4o_2025'', ''Claude_3_Opus'', ''Gemini_Ultra'', ''GPT_4_Turbo'', ''Claude_3_Sonnet''],
     [''Claude_3_Opus'', ''Gemini_Ultra'', ''GPT_4_Turbo'', ''Claude_3_Sonnet'', ''GPT_4o_2025''],
     [''Gemini_Ultra'', ''GPT_4_Turbo'', ''Claude_3_Sonnet'', ''GPT_4o_2025'', ''Claude_3_Opus''],
     [''GPT_4_Turbo'', ''Claude_3_Sonnet'', ''GPT_4o_2025'', ''Claude_3_Opus'', ''Gemini_Ultra''],
     [''Claude_3_Sonnet'', ''GPT_4o_2025'', ''Claude_3_Opus'', ''Gemini_Ultra'', ''GPT_4_Turbo'']]"
  by (simp add: named_squares_def base_squares_def model_names_def MODEL_NAMES_def)

lemma distinct_named_squares: "distinct named_squares"
  by (simp add: named_squares_explicit)

lemma length_named_squares: "length named_squares = 5"
  by (simp add: named_squares_explicit)

lemma shuffled_facts:
  assumes "mset sh = mset named_squares"
  shows "length sh = 5" and "distinct sh" and "set sh = set named_squares"
proof -
  from assms have "size (mset sh) = size (mset named_squares)" by simp
  then show "length sh = 5" by (simp add: length_named_squares)
  from assms distinct_named_squares show "distinct sh"
    by (metis mset_eq_imp_distinct_iff)
  from assms show "set sh = set named_squares" by (rule mset_eq_setD)
qed

lemma set_named_squares: "x \<in> set named_squares \<longleftrightarrow> (\<exists>k<5. x = cyclic_shift k)"
  by (auto simp add: named_squares_eq)

lemma generate_result:
  "generate_latin_square_orders shuffle 5 n_rows =
     Inr (map (\<lambda>i. shuffle named_squares ! (i mod length (shuffle named_squares))) [0..<nat n_rows])"
  by (simp add: generate_latin_square_orders_def Let_def)

text \<open>
  C3: for every \<^verbatim>\<open>n_rows >= 0\<close>, whatever permutation the shuffle leaves,
  \<^verbatim>\<open>generate_latin_square_orders(5, n_rows)\<close> returns a list of exactly \<^verbatim>\<open>n_rows\<close>
  entries, each a cyclic shift of the model names; when \<^verbatim>\<open>n_rows >= 5\<close> the first five
  entries are the five distinct cyclic shifts in some order; entry \<open>i\<close> equals entry
  \<open>i mod 5\<close>; and for every \<^verbatim>\<open>n_models\<close> other than 5 the function raises ValueError.
\<close>

theorem latin_square_orders:
  assumes shuffle: "\<And>xs. mset (shuffle xs) = mset xs"
  shows "(0 \<le> n_rows \<longrightarrow>
           (\<exists>res. generate_latin_square_orders shuffle 5 n_rows = Inr res
              \<and> length res = nat n_rows
              \<and> (\<forall>i<length res. \<exists>k<5. res ! i = cyclic_shift k)
              \<and> (5 \<le> n_rows \<longrightarrow>
                    distinct (take 5 res) \<and> mset (take 5 res) = mset (map cyclic_shift [0..<5]))
              \<and> (\<forall>i<length res. res ! i = res ! (i mod 5))))
         \<and> (n_models \<noteq> 5 \<longrightarrow> generate_latin_square_orders shuffle n_models n_rows = Inl ValueError)"
proof -
  define sh where "sh = shuffle named_squares"
  define res where "res = map (\<lambda>i. sh ! (i mod length sh)) [0..<nat n_rows]"
  have ms: "mset sh = mset named_squares" by (simp add: sh_def shuffle)
  note sf = shuffled_facts [OF ms]
  have gen: "generate_latin_square_orders shuffle 5 n_rows = Inr res"
    by (simp add: generate_result res_def sh_def)
  have len: "length res = nat n_rows" by (simp add: res_def)
  have nth: "res ! i = sh ! (i mod 5)" if "i < length res" for i
    using that by (simp add: res_def sf(1))
  have shifts: "\<exists>k<5. res ! i = cyclic_shift k" if "i < length res" for i
  proof -
    have "sh ! (i mod 5) \<in> set sh" by (simp add: sf(1))
    then have "res ! i \<in> set named_squares" using nth [OF that] sf(3) by simp
    then show ?thesis by (simp add: set_named_squares)
  qed
  have first5: "distinct (take 5 res) \<and> mset (take 5 res) = mset (map cyclic_shift [0..<5])"
    if "5 \<le> n_rows"
  proof -
    from that have "take 5 [0..<nat n_rows] = [0..<5]" by (simp add: take_upt)
    then have "take 5 res = map (\<lambda>i. sh ! (i mod length sh)) [0..<5]"
      by (simp add: res_def take_map)
    also have "\<dots> = map (\<lambda>i. sh ! i) [0..<length sh]"
      by (simp add: sf(1))
    also have "\<dots> = sh" by (rule map_nth)
    finally have "take 5 res = sh" .
    then show ?thesis using sf(2) ms by (simp add: named_squares_eq)
  qed
  have period: "res ! i = res ! (i mod 5)" if "i < length res" for i
  proof -
    have "i mod 5 \<le> i" by simp
    with that have "i mod 5 < length res" by simp
    then have "res ! (i mod 5) = sh ! (i mod 5 mod 5)" by (rule nth)
    with nth [OF that] show ?thesis by simp
  qed
  have err: "n_models \<noteq> 5 \<longrightarrow> generate_latin_square_orders shuffle n_models n_rows = Inl ValueError"
    by (simp add: generate_latin_square_orders_def)
  from gen len shifts first5 period err show ?thesis by blast
qed

lemma count_step:
  "Suc n div 5 + (if r < Suc n mod 5 then 1 else 0)
     = n div 5 + (if r < n mod 5 then 1 else 0) + (if n mod 5 = r then 1 else (0::nat))"
  if "r < 5" for n r :: nat
proof -
  have "n mod 5 < 5" by simp
  with that show ?thesis by (auto simp add: mod_Suc div_Suc)
qed

lemma count_residue:
  "r < 5 \<Longrightarrow>
     length (filter (\<lambda>i. i mod 5 = r) [0..<n]) = n div 5 + (if r < n mod 5 then 1 else 0)"
proof (induction n)
  case 0
  then show ?case by simp
next
  case (Suc n)
  from Suc have "length (filter (\<lambda>i. i mod 5 = r) [0..<Suc n])
      = n div 5 + (if r < n mod 5 then 1 else 0) + (if n mod 5 = r then 1 else 0)"
    by simp
  with count_step [OF Suc.prems, of n] show ?case by simp
qed

lemma ceil5: "(n + 4) div 5 = n div 5 + (if n mod 5 = 0 then 0 else 1)" for n :: nat
  by arith

lemma floor_or_ceil:
  "(c = n div 5 \<or> c = (n + 4) div 5) \<and> 5 * c \<le> n + 5 \<and> n \<le> 5 * c + 5"
  if "c = n div 5 + (if r < n mod 5 then 1 else 0)" for n r c :: nat
proof -
  have "n = 5 * (n div 5) + n mod 5" by simp
  moreover have "n mod 5 < 5" by simp
  ultimately show ?thesis unfolding ceil5 that by (auto split: if_splits)
qed

lemma unique_row:
  assumes "model \<in> set model_names" and "position < 5"
  shows "\<exists>x\<in>set named_squares. x ! position = model
           \<and> (\<forall>y\<in>set named_squares. y ! position = model \<longrightarrow> y = x)"
proof -
  from assms(2) have "position = 0 \<or> position = 1 \<or> position = 2 \<or> position = 3 \<or> position = 4"
    by arith
  moreover from assms(1) have "model = ''GPT_4o_2025'' \<or> model = ''Claude_3_Opus''
      \<or> model = ''Gemini_Ultra'' \<or> model = ''GPT_4_Turbo'' \<or> model = ''Claude_3_Sonnet''"
    by (auto simp add: model_names_def MODEL_NAMES_def)
  ultimately show ?thesis
    unfolding named_squares_explicit by (elim disjE) simp_all
qed

lemma length_rows: "x \<in> set named_squares \<Longrightarrow> length x = 5"
  by (auto simp add: named_squares_explicit)

text \<open>
  C4: for every \<^verbatim>\<open>n_rows >= 0\<close> and every output of
  \<^verbatim>\<open>generate_latin_square_orders(5, n_rows)\<close>, the number of rows that show a given model
  at a given position is the floor or the ceiling of \<^verbatim>\<open>n_rows / 5\<close>, hence within one
  of \<^verbatim>\<open>n_rows / 5\<close>.
\<close>

theorem latin_square_balance:
  assumes shuffle: "\<And>xs. mset (shuffle xs) = mset xs"
    and rows: "0 \<le> n_rows"
    and gen: "generate_latin_square_orders shuffle 5 n_rows = Inr res"
    and model: "model \<in> set model_names"
    and pos: "position < 5"
  shows "(position_count res model position = nat n_rows div 5
          \<or> position_count res model position = (nat n_rows + 4) div 5)
         \<and> 5 * position_count res model position \<le> nat n_rows + 5
         \<and> nat n_rows \<le> 5 * position_count res model position + 5"
proof -
  define sh where "sh = shuffle named_squares"
  have ms: "mset sh = mset named_squares" by (simp add: sh_def shuffle)
  note sf = shuffled_facts [OF ms]
  from gen have res: "res = map (\<lambda>i. sh ! (i mod 5)) [0..<nat n_rows]"
    by (simp add: generate_result sh_def sf(1) [unfolded sh_def])
  obtain x where x: "x \<in> set sh" "x ! position = model"
    and uniq: "\<And>y. y \<in> set sh \<Longrightarrow> y ! position = model \<Longrightarrow> y = x"
    using unique_row [OF model pos] unfolding sf(3) by blast
  from x(1) obtain r where r: "r < 5" "sh ! r = x"
    by (auto simp add: in_set_conv_nth sf(1))
  have iff: "(position < length (sh ! j) \<and> sh ! j ! position = model) \<longleftrightarrow> j = r" if "j < 5" for j
  proof
    assume "position < length (sh ! j) \<and> sh ! j ! position = model"
    moreover have "sh ! j \<in> set sh" using that by (simp add: sf(1))
    ultimately have "sh ! j = sh ! r" using uniq r(2) by simp
    then show "j = r" using that r(1) sf(1) sf(2) by (simp add: nth_eq_iff_index_eq)
  next
    assume "j = r"
    moreover have "length x = 5" using x(1) sf(3) length_rows by simp
    ultimately show "position < length (sh ! j) \<and> sh ! j ! position = model"
      using r(2) x(2) pos by simp
  qed
  have "position_count res model position =
          length (filter (\<lambda>i. position < length (sh ! (i mod 5)) \<and> sh ! (i mod 5) ! position = model)
                    [0..<nat n_rows])"
    by (simp add: position_count_def res filter_map o_def)
  also have "\<dots> = length (filter (\<lambda>i. i mod 5 = r) [0..<nat n_rows])"
    by (simp add: iff)
  also have "\<dots> = nat n_rows div 5 + (if r < nat n_rows mod 5 then 1 else 0)"
    by (rule count_residue [OF r(1)])
  finally show ?thesis by (rule floor_or_ceil)
qed

lemma upt7: "[0..<7] = [0, 1, 2, 3, 4, 5, 6::nat]"
  by code_simp

lemma example_generate: "generate_latin_square_orders rev 5 7 = Inr example_orders"
  by (simp add: generate_result upt7 named_squares_explicit example_orders_def)

theorem latin_square_orders_witness:
  "mset (rev named_squares) = mset named_squares
   \<and> (0::int) \<le> 7 \<and> (5::int) \<le> 7 \<and> (3::int) \<noteq> 5
   \<and> generate_latin_square_orders rev 5 7 = Inr example_orders
   \<and> length example_orders = 7
   \<and> distinct (take 5 example_orders)
   \<and> example_orders ! 6 = example_orders ! (6 mod 5)
   \<and> generate_latin_square_orders rev 3 7 = Inl ValueError"
proof -
  have sh: "\<And>xs :: string list list. mset (rev xs) = mset xs" by simp
  have len: "length example_orders = 7" by (simp add: example_orders_def)
  have r: "(0::int) \<le> 7" and r5: "(5::int) \<le> 7" and m: "(3::int) \<noteq> 5" by simp_all
  from latin_square_orders [of rev 7 3, OF sh] r m
  obtain res where gen: "generate_latin_square_orders rev 5 7 = Inr res"
    and d: "5 \<le> (7::int) \<longrightarrow> distinct (take 5 res) \<and> mset (take 5 res) = mset (map cyclic_shift [0..<5])"
    and p: "\<forall>i<length res. res ! i = res ! (i mod 5)"
    and e: "generate_latin_square_orders rev 3 7 = Inl ValueError"
    by blast
  from gen have eq: "res = example_orders" by (simp add: example_generate)
  from d r5 have d': "distinct (take 5 example_orders)" unfolding eq by blast
  have "(6::nat) < length example_orders" unfolding len by simp
  with p have p': "example_orders ! 6 = example_orders ! (6 mod 5)"
    unfolding eq by blast
  have s: "mset (rev named_squares) = mset named_squares" by (rule sh)
  from s r r5 m example_generate len d' p' e show ?thesis by blast
qed

theorem latin_square_balance_witness:
  "mset (rev named_squares) = mset named_squares
   \<and> (0::int) \<le> 7
   \<and> generate_latin_square_orders rev 5 7 = Inr example_orders
   \<and> ''Gemini_Ultra'' \<in> set model_names
   \<and> (2::nat) < 5
   \<and> (position_count example_orders ''Gemini_Ultra'' 2 = nat 7 div 5
        \<or> position_count example_orders ''Gemini_Ultra'' 2 = (nat 7 + 4) div 5)"
proof -
  have sh: "\<And>xs :: string list list. mset (rev xs) = mset xs" by simp
  have s: "mset (rev named_squares) = mset named_squares" by (rule sh)
  have m: "''Gemini_Ultra'' \<in> set model_names" by (simp add: model_names_def MODEL_NAMES_def)
  have p: "(2::nat) < 5" by simp
  have r: "(0::int) \<le> 7" by simp
  note b = latin_square_balance [of rev 7 example_orders "''Gemini_Ultra''" 2, OF sh r example_generate m p]
  from s r example_generate m p b show ?thesis by blast
qed

section \<open>Properties of the Firestore task service\<close>

lemma query_limit_1_empty:
  "query_limit_1 db task_id = [] \<longleftrightarrow> \<not> (\<exists>entry \<in> set db. matches_query task_id (snd entry))"
  by (auto simp add: query_limit_1_def filter_empty_conv)

lemma query_limit_1_first:
  assumes "query_limit_1 db task_id = entry # rest"
  shows "entry \<in> set db \<and> matches_query task_id (snd entry)"
proof -
  from assms have "entry \<in> set (take 1 (filter (\<lambda>entry. matches_query task_id (snd entry)) db))"
    by (simp add: query_limit_1_def)
  then have "entry \<in> set (filter (\<lambda>entry. matches_query task_id (snd entry)) db)"
    by (rule in_set_takeD)
  then show ?thesis by simp
qed

lemma update_document_same:
  "e \<in> set (update_document db doc_id [(''available'', FBool False), (''assigned_at'', FTime now)])
     \<Longrightarrow> fst e = doc_id \<Longrightarrow> snd e ''available'' = Some (FBool False)"
  by (cases e) (auto simp add: update_document_def)

lemma update_document_others:
  "e \<in> set db \<Longrightarrow> fst e \<noteq> doc_id \<Longrightarrow> e \<in> set (update_document db doc_id updates)"
  by (force simp add: update_document_def)

lemma update_document_ids: "map fst (update_document db doc_id updates) = map fst db"
  by (simp add: update_document_def)

text \<open>
  C1, for a non-empty parameter: for every request whose \<^verbatim>\<open>task_id\<close> parameter is not empty and matches
  at least one document with \<^verbatim>\<open>available == true\<close>, the endpoint returns the payload of
  one such document (its \<^verbatim>\<open>task_url\<close>, its five response URLs and its document id) and
  sets the \<^verbatim>\<open>available\<close> field of that document to false; the other documents stay as
  they are.
\<close>

theorem get_task_urls_allocates:
  assumes nonempty: "task_id \<noteq> []"
    and avail: "\<exists>entry \<in> set db. matches_query task_id (snd entry)"
  shows "\<exists>doc_id task_data.
           (doc_id, task_data) \<in> set db \<and> matches_query task_id task_data
           \<and> fst (get_task_urls (Some task_id) now db) =
               JsonOk \<lparr> task_url = doc_get task_data ''task_url'',
                        response_urls =
                          [doc_get task_data ''response_url_1'', doc_get task_data ''response_url_2'',
                           doc_get task_data ''response_url_3'', doc_get task_data ''response_url_4'',
                           doc_get task_data ''response_url_5''],
                        task_instance_id = doc_id \<rparr>
           \<and> map fst (snd (get_task_urls (Some task_id) now db)) = map fst db
           \<and> (\<forall>e \<in> set (snd (get_task_urls (Some task_id) now db)).
                 fst e = doc_id \<longrightarrow> snd e ''available'' = Some (FBool False))
           \<and> (\<forall>e \<in> set db. fst e \<noteq> doc_id \<longrightarrow> e \<in> set (snd (get_task_urls (Some task_id) now db)))"
proof -
  from avail have "query_limit_1 db task_id \<noteq> []" by (simp add: query_limit_1_empty)
  then obtain entry rest where q: "query_limit_1 db task_id = entry # rest"
    by (cases "query_limit_1 db task_id") auto
  obtain doc_id task_data where e: "entry = (doc_id, task_data)" by (cases entry)
  from query_limit_1_first [OF q] e
  have mem: "(doc_id, task_data) \<in> set db" and mt: "matches_query task_id task_data" by simp_all
  have res: "get_task_urls (Some task_id) now db =
      (JsonOk \<lparr> task_url = doc_get task_data ''task_url'',
                response_urls =
                  [doc_get task_data ''response_url_1'', doc_get task_data ''response_url_2'',
                   doc_get task_data ''response_url_3'', doc_get task_data ''response_url_4'',
                   doc_get task_data ''response_url_5''],
                task_instance_id = doc_id \<rparr>,
       update_document db doc_id [(''available'', FBool False), (''assigned_at'', FTime now)])"
    using nonempty by (simp add: get_task_urls_def q e)
  show ?thesis
    unfolding res fst_conv snd_conv
    using mem mt update_document_same update_document_others update_document_ids by blast
qed

text \<open>
  C2, for a non-empty parameter: for every request whose \<^verbatim>\<open>task_id\<close> parameter is not empty and matches
  no document with \<^verbatim>\<open>available == true\<close>, the endpoint returns an error with status 404
  and the collection is unchanged; for a missing or empty parameter the error has status
  400, and the collection is unchanged as well.
\<close>

theorem get_task_urls_not_found:
  "(task_id \<noteq> [] \<and> \<not> (\<exists>entry \<in> set db. matches_query task_id (snd entry)) \<longrightarrow>
      get_task_urls (Some task_id) now db =
        (JsonError (''No available task instances for task ID: '' @ task_id) 404, db))
   \<and> (task_id_param = None \<or> task_id_param = Some [] \<longrightarrow>
      get_task_urls task_id_param now db = (JsonError ''Missing task_id parameter'' 400, db))"
proof -
  have a: "get_task_urls (Some task_id) now db =
        (JsonError (''No available task instances for task ID: '' @ task_id) 404, db)"
    if "task_id \<noteq> []" and "\<not> (\<exists>entry \<in> set db. matches_query task_id (snd entry))"
  proof -
    from that(2) have "query_limit_1 db task_id = []" by (simp add: query_limit_1_empty)
    with that(1) show ?thesis by (simp add: get_task_urls_def)
  qed
  have b: "get_task_urls task_id_param now db = (JsonError ''Missing task_id parameter'' 400, db)"
    if "task_id_param = None \<or> task_id_param = Some []"
    using that by (auto simp add: get_task_urls_def)
  from a b show ?thesis by blast
qed

lemma example_db_t1: "query_limit_1 example_db ''t1'' = [(''b'', example_doc ''t1'' True ''url_b'')]"
  by (simp add: query_limit_1_def example_db_def matches_query_def example_doc_def)

lemma example_db_match: "matches_query ''t1'' (example_doc ''t1'' True ''url_b'')"
  by (simp add: matches_query_def example_doc_def)

theorem get_task_urls_allocates_witness:
  "''t1'' \<noteq> []
   \<and> (''b'', example_doc ''t1'' True ''url_b'') \<in> set example_db
   \<and> matches_query ''t1'' (example_doc ''t1'' True ''url_b'')
   \<and> fst (get_task_urls (Some ''t1'') 5 example_db) =
        JsonOk \<lparr> task_url = FStr ''url_b'',
                 response_urls = [FStr ''r1'', FStr ''r2'', FStr ''r3'', FStr ''r4'', FNull],
                 task_instance_id = ''b'' \<rparr>
   \<and> map fst (snd (get_task_urls (Some ''t1'') 5 example_db)) = [''a'', ''b'', ''c'']"
proof -
  have n: "''t1'' \<noteq> []" by simp
  have mem: "(''b'', example_doc ''t1'' True ''url_b'') \<in> set example_db"
    by (simp add: example_db_def)
  from mem example_db_match
  have ex: "\<exists>entry \<in> set example_db. matches_query ''t1'' (snd entry)" by force
  have ids: "map fst example_db = [''a'', ''b'', ''c'']" by (simp add: example_db_def)
  from get_task_urls_allocates [OF n ex, of 5]
  have ids': "map fst (snd (get_task_urls (Some ''t1'') 5 example_db)) = [''a'', ''b'', ''c'']"
    unfolding ids by blast
  have r: "fst (get_task_urls (Some ''t1'') 5 example_db) =
        JsonOk \<lparr> task_url = FStr ''url_b'',
                 response_urls = [FStr ''r1'', FStr ''r2'', FStr ''r3'', FStr ''r4'', FNull],
                 task_instance_id = ''b'' \<rparr>"
    by (simp add: get_task_urls_def example_db_t1 doc_get_def example_doc_def)
  from n mem example_db_match r ids' show ?thesis by blast
qed

text \<open>
  The condition on the parameter is needed. For the empty \<^verbatim>\<open>task_id\<close>, a document whose
  \<^verbatim>\<open>task_id\<close> is the empty string matches it and is available, and the endpoint
  answers 400 without touching the document.
\<close>

theorem get_task_urls_empty_id_counterexample:
  "(''z'', example_doc [] True ''url_z'') \<in> set [(''z'', example_doc [] True ''url_z'')]
   \<and> matches_query [] (example_doc [] True ''url_z'')
   \<and> get_task_urls (Some []) 5 [(''z'', example_doc [] True ''url_z'')] =
       (JsonError ''Missing task_id parameter'' 400, [(''z'', example_doc [] True ''url_z'')])"
  by (simp add: get_task_urls_def matches_query_def example_doc_def)

lemma example_db_t9: "\<not> (\<exists>entry \<in> set example_db. matches_query ''t9'' (snd entry))"
  by (simp add: example_db_def matches_query_def example_doc_def)

theorem get_task_urls_not_found_witness:
  "''t9'' \<noteq> []
   \<and> \<not> (\<exists>entry \<in> set example_db. matches_query ''t9'' (snd entry))
   \<and> get_task_urls (Some ''t9'') 5 example_db =
        (JsonError (''No available task instances for task ID: '' @ ''t9'') 404, example_db)
   \<and> get_task_urls None 5 example_db = (JsonError ''Missing task_id parameter'' 400, example_db)"
proof -
  have n: "''t9'' \<noteq> []" by simp
  have o: "(None :: string option) = None \<or> (None :: string option) = Some []" by simp
  from get_task_urls_not_found [of "''t9''" example_db 5 None] n example_db_t9 o
  show ?thesis by blast
qed

text \<open>
  The condition on the parameter is needed. For the empty \<^verbatim>\<open>task_id\<close> no document
  of the example collection matches, and the status is 400, not 404.
\<close>

theorem get_task_urls_not_found_counterexample:
  "filter (\<lambda>entry. matches_query [] (snd entry)) example_db = []
   \<and> get_task_urls (Some []) 5 example_db = (JsonError ''Missing task_id parameter'' 400, example_db)"
  by (simp add: get_task_urls_def matches_query_def example_doc_def example_db_def)

subsection \<open>Import\<close>

lemma default_available_has: "''available'' \<in> dom (default_available item)"
  by (auto simp add: default_available_def)

lemma default_available_true:
  "''available'' \<notin> dom item \<Longrightarrow> default_available item ''available'' = Some (FBool True)"
  by (simp add: default_available_def)

lemma default_available_keeps:
  "''available'' \<in> dom item \<Longrightarrow> default_available item = item"
  by (simp add: default_available_def)

lemma batch_of_json_sources:
  "batch_of_json str_of uuid n items = Some ws \<Longrightarrow> (doc_id, r) \<in> set ws \<Longrightarrow>
     \<exists>item. JObj item \<in> set items \<and> r = default_available item"
proof (induction str_of uuid n items arbitrary: ws rule: batch_of_json.induct)
  case (1 str_of uuid n)
  then show ?case by simp
next
  case (2 str_of uuid n rest)
  then show ?case by simp
next
  case (3 str_of uuid n item rest)
  from "3.prems"(1) obtain ws' where b: "batch_of_json str_of uuid (Suc n) rest = Some ws'"
    and ws: "ws = (doc_id_of str_of uuid n item, default_available item) # ws'"
    by (auto split: option.splits)
  from "3.prems"(2) ws consider "r = default_available item" | "(doc_id, r) \<in> set ws'"
    by auto
  then show ?case
  proof cases
    case 1 then show ?thesis by auto
  next
    case 2
    from "3.IH" [OF b 2] show ?thesis by auto
  qed
qed

lemma batch_of_csv_sources:
  "(doc_id, r) \<in> set (batch_of_csv str_of uuid n rows) \<Longrightarrow>
     \<exists>row. row \<in> set rows \<and> r = default_available (nan_to_none row)"
  by (induction str_of uuid n rows rule: batch_of_csv.induct) auto

lemma import_json_sources:
  "(doc_id, r) \<in> set (fst (import_json str_of uuid n items written)) \<Longrightarrow>
     (doc_id, r) \<in> set written \<or> (\<exists>item. JObj item \<in> set items \<and> r = default_available item)"
proof (induction str_of uuid n items written rule: import_json.induct)
  case (1 str_of uuid n items written)
  show ?case
  proof (cases "items = []")
    case True
    with "1.prems" show ?thesis by simp
  next
    case False
    show ?thesis
    proof (cases "batch_of_json str_of uuid n (take 400 items)")
      case None
      with False "1.prems" show ?thesis by simp
    next
      case (Some ws)
      with False "1.prems"
      have "(doc_id, r) \<in> set (fst (import_json str_of uuid (n + length ws) (drop 400 items) (written @ ws)))"
        by simp
      from "1.IH" [OF False Some this]
      consider "(doc_id, r) \<in> set written" | "(doc_id, r) \<in> set ws"
        | "\<exists>item. JObj item \<in> set (drop 400 items) \<and> r = default_available item"
        by auto
      then show ?thesis
      proof cases
        case 1 then show ?thesis by simp
      next
        case 2
        from batch_of_json_sources [OF Some 2] show ?thesis
          by (blast dest: in_set_takeD)
      next
        case 3 then show ?thesis by (blast dest: in_set_dropD)
      qed
    qed
  qed
qed

lemma import_csv_sources:
  "(doc_id, r) \<in> set (fst (import_csv str_of uuid n rows written)) \<Longrightarrow>
     (doc_id, r) \<in> set written \<or> (\<exists>row. row \<in> set rows \<and> r = default_available (nan_to_none row))"
proof (induction str_of uuid n rows written rule: import_csv.induct)
  case (1 str_of uuid n rows written)
  show ?case
  proof (cases "rows = []")
    case True
    with "1.prems" show ?thesis by simp
  next
    case False
    with "1.prems"
    have "(doc_id, r) \<in> set (fst (import_csv str_of uuid (n + length (take 400 rows)) (drop 400 rows)
             (written @ batch_of_csv str_of uuid n (take 400 rows))))"
      by simp
    from "1.IH" [OF False this]
    consider "(doc_id, r) \<in> set written" | "(doc_id, r) \<in> set (batch_of_csv str_of uuid n (take 400 rows))"
      | "\<exists>row. row \<in> set (drop 400 rows) \<and> r = default_available (nan_to_none row)"
      by auto
    then show ?thesis
    proof cases
      case 1 then show ?thesis by simp
    next
      case 2
      from batch_of_csv_sources [OF 2] show ?thesis by (blast dest: in_set_takeD)
    next
      case 3 then show ?thesis by (blast dest: in_set_dropD)
    qed
  qed
qed

lemma batch_of_csv_records:
  "map snd (batch_of_csv str_of uuid n rows) = map (\<lambda>row. default_available (nan_to_none row)) rows"
  by (induction str_of uuid n rows rule: batch_of_csv.induct) simp_all

lemma length_batch_of_csv: "length (batch_of_csv str_of uuid n rows) = length rows"
  by (induction str_of uuid n rows rule: batch_of_csv.induct) simp_all

lemma import_csv_records:
  "map snd (fst (import_csv str_of uuid n rows written)) =
     map snd written @ map (\<lambda>row. default_available (nan_to_none row)) rows
   \<and> snd (import_csv str_of uuid n rows written) = Some (n + length rows)"
proof (induction str_of uuid n rows written rule: import_csv.induct)
  case (1 str_of uuid n rows written)
  show ?case
  proof (cases "rows = []")
    case True
    then show ?thesis by simp
  next
    case False
    let ?f = "\<lambda>row. default_available (nan_to_none row)"
    have split: "map ?f (take 400 rows) @ map ?f (drop 400 rows) = map ?f rows"
      by (simp only: map_append [symmetric] append_take_drop_id)
    have len: "length (take 400 rows) + length (drop 400 rows) = length rows"
      by simp
    from "1.IH" [OF False]
    have "map snd (fst (import_csv str_of uuid n rows written)) =
            (map snd written @ map ?f (take 400 rows)) @ map ?f (drop 400 rows)"
      and "snd (import_csv str_of uuid n rows written) =
            Some (n + length (take 400 rows) + length (drop 400 rows))"
      using False by (simp_all add: batch_of_csv_records)
    then show ?thesis using split len by (simp add: add.assoc del: length_take length_drop)
  qed
qed

lemma batch_of_json_records:
  "JOther \<notin> set items \<Longrightarrow>
     \<exists>ws. batch_of_json str_of uuid n items = Some ws
          \<and> map snd ws = map default_available (objects_of items)
          \<and> length ws = length items"
proof (induction str_of uuid n items rule: batch_of_json.induct)
  case (1 str_of uuid n)
  show ?case by simp
next
  case (2 str_of uuid n rest)
  then show ?case by simp
next
  case (3 str_of uuid n item rest)
  from "3.prems" have "JOther \<notin> set rest" by simp
  from "3.IH" [OF this] obtain ws where "batch_of_json str_of uuid (Suc n) rest = Some ws"
    and "map snd ws = map default_available (objects_of rest)" and "length ws = length rest"
    by blast
  then show ?case by simp
qed

lemma objects_of_append: "objects_of (xs @ ys) = objects_of xs @ objects_of ys"
  by (induction xs rule: objects_of.induct) simp_all

lemma objects_of_JObj: "objects_of (map JObj items) = items"
  by (induction items) simp_all

lemma import_json_records:
  "JOther \<notin> set items \<Longrightarrow>
     map snd (fst (import_json str_of uuid n items written)) =
       map snd written @ map default_available (objects_of items)
     \<and> snd (import_json str_of uuid n items written) = Some (n + length items)"
proof (induction str_of uuid n items written rule: import_json.induct)
  case (1 str_of uuid n items written)
  show ?case
  proof (cases "items = []")
    case True
    then show ?thesis by simp
  next
    case False
    from "1.prems" have t: "JOther \<notin> set (take 400 items)" and d: "JOther \<notin> set (drop 400 items)"
      by (auto dest: in_set_takeD in_set_dropD)
    from batch_of_json_records [OF t, of str_of uuid n] obtain ws where
      b: "batch_of_json str_of uuid n (take 400 items) = Some ws"
      and r: "map snd ws = map default_available (objects_of (take 400 items))"
      and l: "length ws = length (take 400 items)"
      by blast
    have split: "objects_of (take 400 items) @ objects_of (drop 400 items) = objects_of items"
      by (simp only: objects_of_append [symmetric] append_take_drop_id)
    have len: "length (take 400 items) + length (drop 400 items) = length items"
      by simp
    from "1.IH" [OF False b d]
    have "map snd (fst (import_json str_of uuid n items written)) =
            (map snd written @ map default_available (objects_of (take 400 items)))
              @ map default_available (objects_of (drop 400 items))"
      and "snd (import_json str_of uuid n items written) =
            Some (n + length (take 400 items) + length (drop 400 items))"
      using False b by (simp_all add: r l del: length_take length_drop)
    then show ?thesis
      using split len
      by (simp add: add.assoc map_append [symmetric] del: length_take length_drop map_append)
  qed
qed

lemma import_written_sources:
  assumes "(doc_id, r) \<in> set (fst (import_data str_of uuid upl))"
  shows "\<exists>item \<in> source_items upl. r = default_available item"
proof (cases upl)
  case (CsvFile rows)
  with assms import_csv_sources [of doc_id r str_of uuid 0 rows "[]"]
  show ?thesis by (auto simp add: import_data_def source_items_def)
next
  case (JsonFile items)
  with assms import_json_sources [of doc_id r str_of uuid 0 items "[]"]
  show ?thesis by (auto simp add: import_data_def source_items_def)
qed

text \<open>
  C10, with the default by key: every record that \<^verbatim>\<open>/import_data\<close> writes, from CSV or
  JSON input, has an \<^verbatim>\<open>available\<close> field. The record is the input item: with
  \<^verbatim>\<open>available\<close> set to \<^verbatim>\<open>True\<close> when the item has no \<^verbatim>\<open>available\<close> key (a CSV file
  without that column, a JSON object without that key), and with the value it has
  otherwise, which for an empty CSV cell is \<^verbatim>\<open>None\<close>. Every row of a CSV file is
  written, and every item of a JSON list of objects.
\<close>

theorem import_sets_available:
  "(\<forall>doc_id r. (doc_id, r) \<in> set (fst (import_data str_of uuid upl)) \<longrightarrow>
      ''available'' \<in> dom r
      \<and> (\<exists>item \<in> source_items upl.
            r = default_available item
            \<and> (''available'' \<notin> dom item \<longrightarrow> r = item(''available'' \<mapsto> FBool True))
            \<and> (''available'' \<in> dom item \<longrightarrow> r = item)))
   \<and> (\<forall>rows. upl = CsvFile rows \<longrightarrow>
         map snd (fst (import_data str_of uuid upl)) =
           map (\<lambda>row. default_available (nan_to_none row)) rows
         \<and> snd (import_data str_of uuid upl) = Some (length rows))
   \<and> (\<forall>items. upl = JsonFile (map JObj items) \<longrightarrow>
         map snd (fst (import_data str_of uuid upl)) = map default_available items
         \<and> snd (import_data str_of uuid upl) = Some (length items))"
proof -
  have a: "''available'' \<in> dom r
      \<and> (\<exists>item \<in> source_items upl.
            r = default_available item
            \<and> (''available'' \<notin> dom item \<longrightarrow> r = item(''available'' \<mapsto> FBool True))
            \<and> (''available'' \<in> dom item \<longrightarrow> r = item))"
    if "(doc_id, r) \<in> set (fst (import_data str_of uuid upl))" for doc_id r
  proof -
    from import_written_sources [OF that]
    obtain item where i: "item \<in> source_items upl" and r: "r = default_available item" by blast
    have "''available'' \<in> dom r" unfolding r by (rule default_available_has)
    moreover have "''available'' \<notin> dom item \<longrightarrow> r = item(''available'' \<mapsto> FBool True)"
      unfolding r by (simp add: default_available_def)
    moreover have "''available'' \<in> dom item \<longrightarrow> r = item"
      unfolding r by (simp add: default_available_def)
    ultimately show ?thesis using i r by blast
  qed
  have b: "map snd (fst (import_data str_of uuid upl)) =
           map (\<lambda>row. default_available (nan_to_none row)) rows
         \<and> snd (import_data str_of uuid upl) = Some (length rows)"
    if "upl = CsvFile rows" for rows
    using import_csv_records [of str_of uuid 0 rows "[]"] that by (simp add: import_data_def)
  have c: "map snd (fst (import_data str_of uuid upl)) = map default_available items
         \<and> snd (import_data str_of uuid upl) = Some (length items)"
    if "upl = JsonFile (map JObj items)" for items
  proof -
    have "JOther \<notin> set (map JObj items)" by auto
    from import_json_records [OF this, of str_of uuid 0 "[]"] that
    show ?thesis by (simp add: import_data_def objects_of_JObj)
  qed
  from a b c show ?thesis by blast
qed

lemma example_import:
  "fst (import_data example_str example_uuid (JsonFile (map JObj [example_item1, example_item2])))
     = [(''uuid'', default_available example_item1), (''7'', default_available example_item2)]"
  by (simp add: import_data_def doc_id_of_def example_item1_def example_item2_def
        example_str_def example_uuid_def)

theorem import_sets_available_witness:
  "(''uuid'', default_available example_item1)
      \<in> set (fst (import_data example_str example_uuid
                   (JsonFile (map JObj [example_item1, example_item2]))))
   \<and> ''available'' \<in> dom (default_available example_item1)
   \<and> ''available'' \<notin> dom example_item1
   \<and> default_available example_item1 = example_item1(''available'' \<mapsto> FBool True)
   \<and> ''available'' \<in> dom example_item2
   \<and> default_available example_item2 = example_item2
   \<and> map snd (fst (import_data example_str example_uuid
                     (JsonFile (map JObj [example_item1, example_item2]))))
        = map default_available [example_item1, example_item2]
   \<and> map snd (fst (import_data example_str example_uuid (CsvFile [example_csv_row2])))
        = map (\<lambda>row. default_available (nan_to_none row)) [example_csv_row2]
   \<and> snd (import_data example_str example_uuid (CsvFile [example_csv_row2])) = Some (length [example_csv_row2])"
proof -
  let ?upl = "JsonFile (map JObj [example_item1, example_item2])"
  have m: "(''uuid'', default_available example_item1)
      \<in> set (fst (import_data example_str example_uuid ?upl))"
    unfolding example_import by simp
  have a: "''available'' \<notin> dom example_item1" by (simp add: example_item1_def)
  have b: "''available'' \<in> dom example_item2" by (simp add: example_item2_def)
  note j = import_sets_available [of example_str example_uuid ?upl]
  from j m have h: "''available'' \<in> dom (default_available example_item1)"
    by blast
  from j have k: "map snd (fst (import_data example_str example_uuid ?upl))
        = map default_available [example_item1, example_item2]"
    by blast
  from import_sets_available [of example_str example_uuid "CsvFile [example_csv_row2]"]
  have v: "map snd (fst (import_data example_str example_uuid (CsvFile [example_csv_row2])))
        = map (\<lambda>row. default_available (nan_to_none row)) [example_csv_row2]
     \<and> snd (import_data example_str example_uuid (CsvFile [example_csv_row2])) = Some (length [example_csv_row2])"
    by blast
  from a have c: "default_available example_item1 = example_item1(''available'' \<mapsto> FBool True)"
    by (simp add: default_available_def)
  from b have d: "default_available example_item2 = example_item2"
    by (simp add: default_available_def)
  from m h a c b d k v show ?thesis by blast
qed

text \<open>
  The default does not reach a CSV row whose \<^verbatim>\<open>available\<close> cell is empty: the key is
  there, the record is written with \<^verbatim>\<open>available\<close> \<^verbatim>\<open>None\<close>, and a request for its task
  finds no available instance.
\<close>

theorem import_empty_cell_counterexample:
  "example_csv_row ''available'' = Some FNaN
   \<and> fst (import_data example_str example_uuid (CsvFile [example_csv_row]))
       = [(''uuid'', nan_to_none example_csv_row)]
   \<and> nan_to_none example_csv_row ''available'' = Some FNull
   \<and> fst (get_task_urls (Some ''t1'') 5
            (fst (import_data example_str example_uuid (CsvFile [example_csv_row]))))
       = JsonError (''No available task instances for task ID: '' @ ''t1'') 404"
proof -
  have k: "''available'' \<in> dom (nan_to_none example_csv_row)"
    by (simp add: nan_to_none_def example_csv_row_def dom_def)
  have n: "nan_to_none example_csv_row ''available'' = Some FNull"
    by (simp add: nan_to_none_def example_csv_row_def)
  have id: "doc_id_of example_str example_uuid 0 (nan_to_none example_csv_row) = ''uuid''"
    by (simp add: doc_id_of_def nan_to_none_def example_csv_row_def example_uuid_def)
  have w: "fst (import_data example_str example_uuid (CsvFile [example_csv_row]))
       = [(''uuid'', nan_to_none example_csv_row)]"
    by (simp add: import_data_def id default_available_keeps [OF k])
  have q: "query_limit_1 [(''uuid'', nan_to_none example_csv_row)] ''t1'' = []"
    by (simp add: query_limit_1_def matches_query_def n)
  have g: "fst (get_task_urls (Some ''t1'') 5 [(''uuid'', nan_to_none example_csv_row)])
       = JsonError (''No available task instances for task ID: '' @ ''t1'') 404"
    by (simp add: get_task_urls_def q)
  have c: "example_csv_row ''available'' = Some FNaN" by (simp add: example_csv_row_def)
  from c w n g show ?thesis by simp
qed

section \<open>Properties of the SQLite task service\<close>

lemma lowest_instance_mem: "lowest_instance rows = Some r \<Longrightarrow> r \<in> set rows"
proof (induction rows arbitrary: r)
  case Nil
  then show ?case by simp
next
  case (Cons x xs)
  show ?case
  proof (cases "lowest_instance xs")
    case None
    with Cons.prems show ?thesis by simp
  next
    case (Some m)
    from Cons.IH [OF Some] have "m \<in> set xs" .
    moreover from Cons.prems Some have "r = x \<or> r = m" by (simp split: if_splits)
    ultimately show ?thesis by auto
  qed
qed

lemma selected_eligible:
  assumes "lowest_instance (filter (eligible task_db_id round_id) rows) = Some r"
  shows "r \<in> set rows \<and> eligible task_db_id round_id r"
  using lowest_instance_mem [OF assms] by simp

lemma mark_assigned_all:
  assumes "r \<in> set (mark_assigned round_id instance_id rows)" and "ti_id r = instance_id"
  shows "ti_is_assigned r \<and> ti_assigned_round r = round_id"
proof -
  let ?f = "\<lambda>x. if ti_id x = instance_id
              then x \<lparr> ti_is_assigned := True, ti_assigned_round := round_id \<rparr> else x"
  from assms(1) have "r \<in> ?f ` set rows" unfolding mark_assigned_def set_map .
  then obtain r0 where r0: "r0 \<in> set rows" and r: "r = ?f r0" by (rule imageE)
  show ?thesis
  proof (cases "ti_id r0 = instance_id")
    case True
    with r show ?thesis by simp
  next
    case False
    with r assms(2) show ?thesis by simp
  qed
qed

lemma mark_assigned_row:
  assumes "r \<in> set rows"
  shows "r \<lparr> ti_is_assigned := True, ti_assigned_round := round_id \<rparr>
       \<in> set (mark_assigned round_id (ti_id r) rows)"
proof -
  let ?f = "\<lambda>x. if ti_id x = ti_id r
              then x \<lparr> ti_is_assigned := True, ti_assigned_round := round_id \<rparr> else x"
  from assms have "?f r \<in> ?f ` set rows" by (rule imageI)
  then show ?thesis unfolding mark_assigned_def set_map by simp
qed

lemma get_next_some:
  assumes "get_next_task_instance sample db task_id occupation round_id = (Some (url, models), db')"
  shows "\<exists>(task_row :: task_row) (inst :: task_instance_row).
           lowest_instance (filter (eligible (t_id task_row) round_id) (task_instances db)) = Some inst
           \<and> url = ti_pdf_url inst
           \<and> db' = db \<lparr> task_instances := mark_assigned round_id (ti_id inst) (task_instances db) \<rparr>
           \<and> models =
               (if length (responses_of db (ti_id inst)) > 5
                then map Some (sample (responses_of db (ti_id inst)) 5)
                else map Some (responses_of db (ti_id inst))
                       @ replicate (5 - length (responses_of db (ti_id inst))) None)"
proof (cases "find (\<lambda>t. t_task_id t = task_id \<and> t_occupation t = occupation) (tasks db)")
  case None
  with assms show ?thesis by (simp add: get_next_task_instance_def)
next
  case task: (Some task_row)
  show ?thesis
  proof (cases "lowest_instance (filter (eligible (t_id task_row) round_id) (task_instances db))")
    case None
    with assms task show ?thesis by (simp add: get_next_task_instance_def)
  next
    case (Some inst)
    define D where "D = db \<lparr> task_instances := mark_assigned round_id (ti_id inst) (task_instances db) \<rparr>"
    define M where "M =
               (if length (responses_of db (ti_id inst)) > 5
                then map Some (sample (responses_of db (ti_id inst)) 5)
                else map Some (responses_of db (ti_id inst))
                       @ replicate (5 - length (responses_of db (ti_id inst))) None)"
    have r: "responses_of D i = responses_of db i" for i
      by (simp add: responses_of_def D_def)
    have "get_next_task_instance sample db task_id occupation round_id
            = (Some (ti_pdf_url inst, M), D)"
      unfolding get_next_task_instance_def task Some option.case Let_def D_def [symmetric] r M_def
      by (rule refl)
    with assms have "(Some (url, models), db') = (Some (ti_pdf_url inst, M), D)" by simp
    then have "url = ti_pdf_url inst" and "models = M" and "db' = D" by blast+
    with Some show ?thesis unfolding M_def D_def by blast
  qed
qed

text \<open>
  C5, with the second way of being eligible: every task instance that \<^verbatim>\<open>get_next_task_instance\<close> returns is, at the
  moment it is selected, either unassigned or not completed and assigned in a round
  before the requested one; on return it is marked \<^verbatim>\<open>is_assigned = TRUE\<close> with
  \<^verbatim>\<open>assigned_round\<close> set to the requested round.
\<close>

theorem get_next_marks_assigned:
  assumes "get_next_task_instance sample db task_id occupation round_id = (Some (url, models), db')"
  shows "\<exists>inst \<in> set (task_instances db).
           ti_pdf_url inst = url
           \<and> (\<not> ti_is_assigned inst
                \<or> (\<not> ti_is_completed inst \<and> ti_assigned_round inst < round_id))
           \<and> inst \<lparr> ti_is_assigned := True, ti_assigned_round := round_id \<rparr>
                \<in> set (task_instances db')
           \<and> (\<forall>r \<in> set (task_instances db').
                 ti_id r = ti_id inst \<longrightarrow> ti_is_assigned r \<and> ti_assigned_round r = round_id)"
proof -
  from get_next_some [OF assms] obtain task_row :: task_row and inst :: task_instance_row where
    sel: "lowest_instance (filter (eligible (t_id task_row) round_id) (task_instances db)) = Some inst"
    and url: "url = ti_pdf_url inst"
    and db': "db' = db \<lparr> task_instances := mark_assigned round_id (ti_id inst) (task_instances db) \<rparr>"
    by blast
  from selected_eligible [OF sel]
  have mem: "inst \<in> set (task_instances db)" and el: "eligible (t_id task_row) round_id inst"
    by simp_all
  from el have e: "\<not> ti_is_assigned inst
                \<or> (\<not> ti_is_completed inst \<and> ti_assigned_round inst < round_id)"
    by (simp add: eligible_def)
  have rows: "task_instances db' = mark_assigned round_id (ti_id inst) (task_instances db)"
    by (simp add: db')
  have m: "inst \<lparr> ti_is_assigned := True, ti_assigned_round := round_id \<rparr> \<in> set (task_instances db')"
    unfolding rows by (rule mark_assigned_row [OF mem])
  have a: "\<forall>r \<in> set (task_instances db').
                 ti_id r = ti_id inst \<longrightarrow> ti_is_assigned r \<and> ti_assigned_round r = round_id"
    unfolding rows using mark_assigned_all by blast
  from mem url e m a show ?thesis by blast
qed

text \<open>
  C8: whenever \<^verbatim>\<open>get_next_task_instance\<close> returns an instance, the list of model URLs
  has length exactly 5: with more than 5 model responses for the instance, 5 of them are
  selected; with 5 or fewer, all of them, padded with \<^verbatim>\<open>None\<close> up to length 5.
  \<^verbatim>\<open>random.sample\<close> is any function that returns \<open>k\<close> of the elements it is given.
\<close>

theorem get_next_five_models:
  assumes sample: "\<And>xs k. k \<le> length xs \<Longrightarrow> length (sample xs k) = k \<and> mset (sample xs k) \<subseteq># mset xs"
    and res: "get_next_task_instance sample db task_id occupation round_id = (Some (url, models), db')"
  shows "length models = 5
         \<and> (\<exists>inst \<in> set (task_instances db).
               ti_pdf_url inst = url
               \<and> (5 < length (responses_of db (ti_id inst)) \<longrightarrow>
                    (\<exists>sel. models = map Some sel \<and> length sel = 5
                           \<and> mset sel \<subseteq># mset (responses_of db (ti_id inst))))
               \<and> (length (responses_of db (ti_id inst)) \<le> 5 \<longrightarrow>
                    models = map Some (responses_of db (ti_id inst))
                               @ replicate (5 - length (responses_of db (ti_id inst))) None))"
proof -
  from get_next_some [OF res] obtain task_row :: task_row and inst :: task_instance_row where
    sel: "lowest_instance (filter (eligible (t_id task_row) round_id) (task_instances db)) = Some inst"
    and url: "url = ti_pdf_url inst"
    and models: "models =
               (if length (responses_of db (ti_id inst)) > 5
                then map Some (sample (responses_of db (ti_id inst)) 5)
                else map Some (responses_of db (ti_id inst))
                       @ replicate (5 - length (responses_of db (ti_id inst))) None)"
    by blast
  let ?all = "responses_of db (ti_id inst)"
  from selected_eligible [OF sel] have mem: "inst \<in> set (task_instances db)" by simp
  have len: "length models = 5"
  proof (cases "5 < length ?all")
    case True
    then have "5 \<le> length ?all" by simp
    from sample [OF this] True show ?thesis by (simp add: models)
  next
    case False
    then show ?thesis by (simp add: models)
  qed
  have many: "\<exists>sel. models = map Some sel \<and> length sel = 5 \<and> mset sel \<subseteq># mset ?all"
    if "5 < length ?all"
  proof -
    from that have "5 \<le> length ?all" by simp
    from sample [OF this] that show ?thesis by (auto simp add: models)
  qed
  have few: "models = map Some ?all @ replicate (5 - length ?all) None" if "length ?all \<le> 5"
    using that by (simp add: models)
  from len mem url many few show ?thesis by blast
qed

lemma example_selected_nurse:
  "lowest_instance (filter (eligible 1 2) (task_instances example_sql_db)) = Some example_instance"
  by (simp add: example_sql_db_def example_instance_def example_instance2_def eligible_def)

lemma example_next_nurse:
  "get_next_task_instance example_sample example_sql_db 7 ''nurse'' 2 =
     (Some (''inst10.pdf'', [Some ''a1'', Some ''a2'', None, None, None]), example_sql_db_nurse)"
  by (simp add: get_next_task_instance_def example_sql_db_def example_instance_def
        example_instance2_def eligible_def mark_assigned_def responses_of_def
        example_response_def example_sample_def example_sql_db_nurse_def Let_def
        numeral_3_eq_3)

lemma example_next_clerk:
  "get_next_task_instance example_sample example_sql_db 8 ''clerk'' 1 =
     (Some (''inst20.pdf'', [Some ''b1'', Some ''b2'', Some ''b3'', Some ''b4'', Some ''b5'']),
      example_sql_db_clerk)"
  by (simp add: get_next_task_instance_def example_sql_db_def example_instance_def
        example_instance2_def eligible_def mark_assigned_def responses_of_def
        example_response_def example_sample_def example_sql_db_clerk_def Let_def)

lemma example_sample_ok:
  "k \<le> length xs \<Longrightarrow> length (example_sample xs k) = k \<and> mset (example_sample xs k) \<subseteq># mset xs"
proof -
  assume "k \<le> length xs"
  then have "length (take k xs) = k" by simp
  moreover have "mset xs = mset (take k xs) + mset (drop k xs)"
    by (metis append_take_drop_id mset_append)
  then have "mset (take k xs) \<subseteq># mset xs" by simp
  ultimately show ?thesis by (simp add: example_sample_def)
qed

text \<open>
  Being unassigned is not guaranteed: an instance that is assigned and not completed,
  from round 1, is handed out again in round 2.
\<close>

theorem get_next_reassigns_counterexample:
  "lowest_instance (filter (eligible 1 2) (task_instances example_sql_db)) = Some example_instance
   \<and> ti_is_assigned example_instance
   \<and> fst (get_next_task_instance example_sample example_sql_db 7 ''nurse'' 2) =
        Some (ti_pdf_url example_instance, [Some ''a1'', Some ''a2'', None, None, None])"
proof -
  have "ti_is_assigned example_instance" by (simp add: example_instance_def)
  moreover have "ti_pdf_url example_instance = ''inst10.pdf''" by (simp add: example_instance_def)
  ultimately show ?thesis by (simp add: example_selected_nurse example_next_nurse)
qed

theorem get_next_marks_assigned_witness:
  "get_next_task_instance example_sample example_sql_db 7 ''nurse'' 2 =
     (Some (''inst10.pdf'', [Some ''a1'', Some ''a2'', None, None, None]), example_sql_db_nurse)
   \<and> (\<exists>inst \<in> set (task_instances example_sql_db).
           ti_pdf_url inst = ''inst10.pdf''
           \<and> (\<not> ti_is_assigned inst \<or> (\<not> ti_is_completed inst \<and> ti_assigned_round inst < 2))
           \<and> inst \<lparr> ti_is_assigned := True, ti_assigned_round := 2 \<rparr>
                \<in> set (task_instances example_sql_db_nurse)
           \<and> (\<forall>r \<in> set (task_instances example_sql_db_nurse).
                 ti_id r = ti_id inst \<longrightarrow> ti_is_assigned r \<and> ti_assigned_round r = 2))"
  using get_next_marks_assigned [OF example_next_nurse] example_next_nurse by blast

theorem get_next_five_models_witness:
  "get_next_task_instance example_sample example_sql_db 7 ''nurse'' 2 =
     (Some (''inst10.pdf'', [Some ''a1'', Some ''a2'', None, None, None]), example_sql_db_nurse)
   \<and> get_next_task_instance example_sample example_sql_db 8 ''clerk'' 1 =
     (Some (''inst20.pdf'', [Some ''b1'', Some ''b2'', Some ''b3'', Some ''b4'', Some ''b5'']),
      example_sql_db_clerk)
   \<and> length (responses_of example_sql_db 10) \<le> 5
   \<and> 5 < length (responses_of example_sql_db 20)
   \<and> length (snd (the (fst (get_next_task_instance example_sample example_sql_db 7 ''nurse'' 2)))) = 5
   \<and> length (snd (the (fst (get_next_task_instance example_sample example_sql_db 8 ''clerk'' 1)))) = 5"
proof -
  have few: "length (responses_of example_sql_db 10) \<le> 5"
    by (simp add: responses_of_def example_sql_db_def example_response_def)
  have many: "5 < length (responses_of example_sql_db 20)"
    by (simp add: responses_of_def example_sql_db_def example_response_def)
  from get_next_five_models [of example_sample, OF example_sample_ok example_next_nurse]
  have a: "length [Some ''a1'', Some ''a2'', None, None, None :: string option] = 5" by blast
  from get_next_five_models [of example_sample, OF example_sample_ok example_next_clerk]
  have b: "length [Some ''b1'', Some ''b2'', Some ''b3'', Some ''b4'', Some ''b5''] = 5" by blast
  from a have a': "length (snd (the (fst (get_next_task_instance example_sample example_sql_db 7 ''nurse'' 2)))) = 5"
    unfolding example_next_nurse fst_conv snd_conv option.sel .
  from b have b': "length (snd (the (fst (get_next_task_instance example_sample example_sql_db 8 ''clerk'' 1)))) = 5"
    unfolding example_next_clerk fst_conv snd_conv option.sel .
  from example_next_nurse example_next_clerk few many a' b' show ?thesis by blast
qed

end
